theory Spec2Isabelle
  imports Main "HOL-Library.Char_ord" "HOL-Library.List_Lexorder" "HOL-Library.AList"
begin

unbundle bit_operations_syntax

section \<open>Go string primitives used by the code\<close>

text \<open>
  A Go string is a sequence of bytes, here a \<open>string\<close> (a list of 8-bit characters).
  The functions of package \<open>strings\<close> that the sources call are given on bytes.

  \<open>strings.TrimSpace\<close> removes the white space of Unicode at both ends of a string:
  the six ASCII bytes (tab, line feed, vertical tab, form feed, carriage return and
  space), and the UTF-8 encodings of
  U+0085 and U+00A0 (two bytes) and of U+1680, U+2000 to U+200A, U+2028, U+2029,
  U+202F, U+205F and U+3000 (three bytes). A byte that begins no such encoding (at
  the left end) or ends none (at the right end) stops the trimming.
\<close>

definition isSpace :: "char \<Rightarrow> bool" where
  "isSpace c = (c = CHR 0x09 \<or> c = CHR 0x0A \<or> c = CHR 0x0B \<or> c = CHR 0x0C
                \<or> c = CHR 0x0D \<or> c = CHR 0x20)"

definition isSpace2 :: "char \<Rightarrow> char \<Rightarrow> bool" where
  "isSpace2 a b = (a = CHR 0xC2 \<and> (b = CHR 0x85 \<or> b = CHR 0xA0))"

definition isSpace3 :: "char \<Rightarrow> char \<Rightarrow> char \<Rightarrow> bool" where
  "isSpace3 a b c =
     ((a = CHR 0xE1 \<and> b = CHR 0x9A \<and> c = CHR 0x80)
      \<or> (a = CHR 0xE2 \<and> b = CHR 0x80
          \<and> ((128 \<le> (of_char c :: nat) \<and> (of_char c :: nat) \<le> 138)
               \<or> c = CHR 0xA8 \<or> c = CHR 0xA9 \<or> c = CHR 0xAF))
      \<or> (a = CHR 0xE2 \<and> b = CHR 0x81 \<and> c = CHR 0x9F)
      \<or> (a = CHR 0xE3 \<and> b = CHR 0x80 \<and> c = CHR 0x80))"

fun TrimLeftSpace :: "string \<Rightarrow> string" where
  "TrimLeftSpace (a # b # c # s) =
     (if isSpace a then TrimLeftSpace (b # c # s)
      else if isSpace2 a b then TrimLeftSpace (c # s)
      else if isSpace3 a b c then TrimLeftSpace s
      else a # b # c # s)"
| "TrimLeftSpace [a, b] =
     (if isSpace a then TrimLeftSpace [b] else if isSpace2 a b then [] else [a, b])"
| "TrimLeftSpace [a] = (if isSpace a then [] else [a])"
| "TrimLeftSpace [] = []"

text \<open>The same from the right end, on the reversed string: \<open>c\<close> is the last byte.\<close>

fun TrimRightSpaceRev :: "string \<Rightarrow> string" where
  "TrimRightSpaceRev (c # b # a # s) =
     (if isSpace c then TrimRightSpaceRev (b # a # s)
      else if isSpace2 b c then TrimRightSpaceRev (a # s)
      else if isSpace3 a b c then TrimRightSpaceRev s
      else c # b # a # s)"
| "TrimRightSpaceRev [c, b] =
     (if isSpace c then TrimRightSpaceRev [b] else if isSpace2 b c then [] else [c, b])"
| "TrimRightSpaceRev [c] = (if isSpace c then [] else [c])"
| "TrimRightSpaceRev [] = []"

definition TrimSpace :: "string \<Rightarrow> string" where
  "TrimSpace s = rev (TrimRightSpaceRev (rev (TrimLeftSpace s)))"

text \<open>
  \<open>strings.ToLower\<close>: in a string of ASCII bytes the letters \<open>A\<close> to \<open>Z\<close> are
  lowered (\<open>asciiLower\<close>); any other string goes to \<open>strings.Map(unicode.ToLower, s)\<close>,
  the case mapping of Unicode, a function of the library that is taken as given
  (the argument \<open>mapLower\<close>).
\<close>

definition isASCII :: "char \<Rightarrow> bool" where
  "isASCII c = ((of_char c :: nat) < 128)"

definition lowerChar :: "char \<Rightarrow> char" where
  "lowerChar c = (if 65 \<le> (of_char c :: nat) \<and> (of_char c :: nat) \<le> 90
                  then char_of ((of_char c :: nat) + 32) else c)"

definition asciiLower :: "string \<Rightarrow> string" where
  "asciiLower s = map lowerChar s"

definition ToLower :: "(string \<Rightarrow> string) \<Rightarrow> string \<Rightarrow> string" where
  "ToLower mapLower s = (if list_all isASCII s then asciiLower s else mapLower s)"

text \<open>\<open>strings.Split(s, sep)\<close> for a separator of one byte: always at least one piece.\<close>

fun Split :: "string \<Rightarrow> char \<Rightarrow> string list" where
  "Split [] sep = [[]]"
| "Split (c # cs) sep =
     (if c = sep then [] # Split cs sep
      else (case Split cs sep of [] \<Rightarrow> [[c]] | w # ws \<Rightarrow> (c # w) # ws))"

definition HasPrefix :: "string \<Rightarrow> string \<Rightarrow> bool" where
  "HasPrefix s p = (take (length p) s = p)"

definition TrimPrefix :: "string \<Rightarrow> string \<Rightarrow> string" where
  "TrimPrefix s p = (if HasPrefix s p then drop (length p) s else s)"

text \<open>\<open>strings.Contains(s, sub)\<close> for a substring of one byte.\<close>

definition Contains :: "string \<Rightarrow> char \<Rightarrow> bool" where
  "Contains s c = (c \<in> set s)"

text \<open>\<open>strings.Join(parts, sep)\<close>.\<close>

fun Join :: "string list \<Rightarrow> string \<Rightarrow> string" where
  "Join [] sep = []"
| "Join [x] sep = x"
| "Join (x # y # ys) sep = x @ sep @ Join (y # ys) sep"

section \<open>Errors\<close>

text \<open>
  The error value of the store client (\<open>awserr.Error\<close>) carries a code and a message.
  Every error the sources build is one constructor of \<open>error\<close>: the text of a
  \<open>fmt.Errorf\<close> is fixed by its constructor and arguments, and \<open>errors.Wrapf\<close>
  keeps the wrapped error, the format and the format's arguments. \<open>Panic\<close> stands
  for a run-time panic (a slice expression out of range).
\<close>

datatype awsErr = AwsErr (Code: string) (Message: string)

datatype error =
    NotEnabled string
  | EmptyFeatureSet
  | UnknownFeatureFlag string
  | AwsError awsErr
  | Wrapf error string "string list"
  | EmptyData
  | AppendUnsupported string
  | AlreadyExists string
  | PutFailed string
  | Panic

text \<open>\<open>notEnabled(op)\<close>: the error \<open>"<op>" is not enabled\<close>.\<close>

definition notEnabled :: "string \<Rightarrow> error" where
  "notEnabled op = NotEnabled op"

section \<open>Capability set\<close>

text \<open>The constants \<open>1 << iota\<close> of the feature block, \<open>iota\<close> counting from 0.\<close>

definition featureChangeDir :: int where "featureChangeDir = push_bit 0 1"
definition featureList :: int where "featureList = push_bit 1 1"
definition featureRemoveDir :: int where "featureRemoveDir = push_bit 2 1"
definition featureRemove :: int where "featureRemove = push_bit 3 1"
definition featureMove :: int where "featureMove = push_bit 4 1"
definition featureMakeDir :: int where "featureMakeDir = push_bit 5 1"
definition featureGet :: int where "featureGet = push_bit 6 1"
definition featurePut :: int where "featurePut = push_bit 7 1"

text \<open>The \<open>switch\<close> of \<open>parseFeatureSet\<close>: the bit of a verb name, \<open>None\<close> in the default case.\<close>

definition featureFlag :: "string \<Rightarrow> int option" where
  "featureFlag name =
     (if name = ''cd'' then Some featureChangeDir
      else if name = ''ls'' then Some featureList
      else if name = ''rmdir'' then Some featureRemoveDir
      else if name = ''rm'' then Some featureRemove
      else if name = ''mv'' then Some featureMove
      else if name = ''mkdir'' then Some featureMakeDir
      else if name = ''get'' then Some featureGet
      else if name = ''put'' then Some featurePut
      else None)"

text \<open>
  The loop over the tokens; the first unknown token ends it with \<open>(0, error)\<close>.
  \<open>mapLower\<close> is the case mapping of the library that \<open>ToLower\<close> uses.
\<close>

fun parseFeatures ::
  "(string \<Rightarrow> string) \<Rightarrow> string list \<Rightarrow> int \<Rightarrow> int \<times> error option" where
  "parseFeatures mapLower [] featureFlags = (featureFlags, None)"
| "parseFeatures mapLower (feature # features) featureFlags =
     (case featureFlag (ToLower mapLower feature) of
        Some b \<Rightarrow> parseFeatures mapLower features (featureFlags OR b)
      | None \<Rightarrow> (0, Some (UnknownFeatureFlag feature)))"

definition parseFeatureSet :: "(string \<Rightarrow> string) \<Rightarrow> string \<Rightarrow> int \<times> error option" where
  "parseFeatureSet mapLower featureSet =
     (let featureFlags = 0; featureSet = TrimSpace featureSet in
      if featureSet = [] then (featureFlags, Some EmptyFeatureSet)
      else parseFeatures mapLower (Split featureSet CHR '','') featureFlags)"

text \<open>The test the driver makes on a flag set: \<open>featureFlags & feature != 0\<close>.\<close>

definition has :: "int \<Rightarrow> int \<Rightarrow> bool" where
  "has featureFlags feature = (featureFlags AND feature \<noteq> 0)"

text \<open>The known verb names, as the specification lists them.\<close>

definition knownVerbs :: "string set" where
  "knownVerbs = {''cd'', ''ls'', ''rmdir'', ''rm'', ''mv'', ''mkdir'', ''get'', ''put''}"

section \<open>Paths and URLs\<close>

text \<open>
  \<open>filepath.Clean\<close>: the shortest path with the same meaning. Empty components and
  \<open>.\<close> are dropped, \<open>..\<close> removes the component before it, and cannot climb above
  the root; the empty result is \<open>.\<close>. \<open>cleanParts\<close> keeps the components written
  so far in reverse.
\<close>

fun cleanParts :: "bool \<Rightarrow> string list \<Rightarrow> string list \<Rightarrow> string list" where
  "cleanParts rooted [] out = rev out"
| "cleanParts rooted (p # ps) out =
     (if p = [] \<or> p = ''.'' then cleanParts rooted ps out
      else if p = ''..'' then
        (case out of
           [] \<Rightarrow> if rooted then cleanParts rooted ps [] else cleanParts rooted ps [p]
         | q # qs \<Rightarrow> if q = ''..'' then cleanParts rooted ps (p # out)
                     else cleanParts rooted ps qs)
      else cleanParts rooted ps (p # out))"

definition Clean :: "string \<Rightarrow> string" where
  "Clean path =
     (if path = [] then ''.''
      else let rooted = (hd path = CHR ''/'');
               out = (if rooted then ''/'' else []) @ Join (cleanParts rooted (Split path CHR ''/'') []) ''/''
           in if out = [] then ''.'' else out)"

text \<open>
  \<open>filepath.Join\<close>: the elements from the first non-empty one on, joined by the
  separator and cleaned; the empty string when every element is empty.
\<close>

fun filepath_Join :: "string list \<Rightarrow> string" where
  "filepath_Join [] = []"
| "filepath_Join (e # es) = (if e \<noteq> [] then Clean (Join (e # es) ''/'') else filepath_Join es)"

text \<open>Percent-encoding of one byte: \<open>%\<close> and two upper-case hexadecimal digits.\<close>

definition upperhex :: "nat \<Rightarrow> char" where
  "upperhex n = ''0123456789ABCDEF'' ! (n mod 16)"

definition pctEncode :: "char \<Rightarrow> string" where
  "pctEncode c = [CHR ''%'', upperhex ((of_char c :: nat) div 16), upperhex (of_char c :: nat)]"

definition isAlnum :: "char \<Rightarrow> bool" where
  "isAlnum c = (let n = (of_char c :: nat) in
                  (97 \<le> n \<and> n \<le> 122) \<or> (65 \<le> n \<and> n \<le> 90) \<or> (48 \<le> n \<and> n \<le> 57))"

text \<open>The unreserved bytes: letters, digits, \<open>-\<close>, \<open>_\<close>, \<open>.\<close>, \<open>~\<close>.\<close>

definition unreserved :: "char \<Rightarrow> bool" where
  "unreserved c = (isAlnum c \<or> c = CHR ''-'' \<or> c = CHR ''_'' \<or> c = CHR ''.'' \<or> c = CHR ''~'')"

text \<open>
  A URL as \<open>net/url\<close> parses it, with the fields the sources read: no user, no
  fragment; the query is kept in its parsed form (see the signer).
\<close>

record URL =
  Scheme :: string
  Opaque :: string
  Host :: string
  Path :: string

text \<open>
  \<open>URL.EscapedPath\<close> of a path set by assignment: the path \<open>*\<close> stays as it is;
  otherwise unreserved bytes and \<open>$ & + , / : ; = @\<close> stay, every other byte is
  percent-encoded.
\<close>

definition EscapedPath :: "URL \<Rightarrow> string" where
  "EscapedPath u =
     (if Path u = ''*'' then ''*''
      else concat (map (\<lambda>c. if unreserved c \<or> c \<in> set ''$&+,/:;=@'' then [c] else pctEncode c)
                    (Path u)))"

text \<open>
  \<open>URL.String\<close> for a URL without user, query and fragment, the host written as it is:
  \<open>scheme:opaque\<close>, or \<open>scheme://host/path\<close> with a \<open>/\<close> put before a relative path.
\<close>

definition URL_String :: "URL \<Rightarrow> string" where
  "URL_String u =
     (let buf = (if Scheme u \<noteq> [] then Scheme u @ '':'' else []) in
      if Opaque u \<noteq> [] then buf @ Opaque u
      else
        let buf = (if Scheme u \<noteq> [] \<or> Host u \<noteq> []
                   then (if Host u \<noteq> [] \<or> Path u \<noteq> [] then buf @ ''//'' else buf) @ Host u
                   else buf);
            path = EscapedPath u;
            buf = (if path \<noteq> [] \<and> hd path \<noteq> CHR ''/'' \<and> Host u \<noteq> [] then buf @ ''/'' else buf);
            buf = (if buf = [] \<and> Contains (hd (Split path CHR ''/'')) CHR '':'' then ''./'' else buf)
        in buf @ path)"

section \<open>The object store and the driver\<close>

text \<open>
  Times are seconds counted from the zero value of \<open>time.Time\<close>. \<open>time.Now()\<close> is an
  argument \<open>now\<close> of the operations that read the clock. Logging and the metrics
  sink, whose failures are logged and never returned, are left out.
\<close>

type_synonym Time = int

text \<open>
  The answers of the store client. A pointer field that may be \<open>nil\<close> is an option.
  In a listing the store fills key, size and modification time of every object
  (the fields are dereferenced without a test), the owner may be missing.
\<close>

record HeadObjectOutput =
  ContentLength :: "int option"
  LastModified :: "Time option"

record Object =
  Key :: string
  Size :: int
  Modified :: Time
  Owner :: "string option"

text \<open>
  The store is a state \<open>'s\<close> and the client calls on it (\<open>s3iface.S3API\<close>,
  \<open>s3manageriface.UploaderAPI\<close>): the calls that read return their answer, an upload
  returns its error and the state after it. The arguments are bucket, key and body.
\<close>

record 's S3API =
  HeadBucket :: "'s \<Rightarrow> string \<Rightarrow> awsErr option"
  HeadObject :: "'s \<Rightarrow> string \<Rightarrow> string \<Rightarrow> awsErr + HeadObjectOutput"
  ListObjects :: "'s \<Rightarrow> string \<Rightarrow> awsErr + Object list"

record 's UploaderAPI =
  Upload :: "'s \<Rightarrow> string \<Rightarrow> string \<Rightarrow> string \<Rightarrow> awsErr option \<times> 's"

record 's S3Driver =
  featureFlags :: int
  noOverwrite :: bool
  s3 :: "'s S3API"
  uploader :: "'s UploaderAPI"
  hostname :: string
  bucketName :: string
  bucketURL :: URL
  cwd :: string

text \<open>One row of a listing (\<open>S3ObjectInfo\<close>), and its zero value \<open>S3ObjectInfo{}\<close>.\<close>

record S3ObjectInfo =
  name :: string
  objSize :: int
  owner :: string
  modTime :: Time
  isPrefix :: bool

definition emptyInfo :: S3ObjectInfo where
  "emptyInfo = \<lparr>name = [], objSize = 0, owner = [], modTime = 0, isPrefix = False\<rparr>"

definition bucketCheck :: "'s S3Driver \<Rightarrow> 's \<Rightarrow> error option" where
  "bucketCheck d st =
     (case HeadBucket (s3 d) st (bucketName d) of
        Some err \<Rightarrow> Some (Wrapf (AwsError err) ''Bucket %q is not accessible'' [bucketName d])
      | None \<Rightarrow> None)"

text \<open>
  \<open>fqdn\<close>: the bucket URL with its path replaced by the join of the working path and
  the key, as a string.
\<close>

definition fqdn :: "'s S3Driver \<Rightarrow> string \<Rightarrow> string" where
  "fqdn d key = (let u = (bucketURL d)\<lparr>Path := filepath_Join [cwd d, key]\<rparr> in URL_String u)"

definition Stat :: "'s S3Driver \<Rightarrow> 's \<Rightarrow> Time \<Rightarrow> string \<Rightarrow> S3ObjectInfo \<times> error option" where
  "Stat d st now key =
     (case bucketCheck d st of
        Some err \<Rightarrow> (emptyInfo, Some (Wrapf err ''Bucket check failed'' []))
      | None \<Rightarrow>
          (case HeadObject (s3 d) st (bucketName d) key of
             Inl err \<Rightarrow>
               if Code err = ''NotFound''
               then (\<lparr>name = key, objSize = 0, owner = [], modTime = now, isPrefix = True\<rparr>, None)
               else (emptyInfo, Some (AwsError err))
           | Inr resp \<Rightarrow>
               let size = (case ContentLength resp of None \<Rightarrow> 0 | Some n \<Rightarrow> n);
                   modTime = (case LastModified resp of None \<Rightarrow> now | Some t \<Rightarrow> t)
               in (\<lparr>name = key, objSize = size, owner = [], modTime = modTime, isPrefix = True\<rparr>,
                   None)))"

text \<open>
  \<open>ChangeDir\<close> has a value receiver, \<open>func (d S3Driver) ChangeDir\<close>: the assignment
  \<open>d.cwd = path\<close> is made to the method's own copy of the driver. The first component
  of the result is the driver of the caller after the call, the second the error.
\<close>

definition ChangeDir :: "'s S3Driver \<Rightarrow> string \<Rightarrow> 's S3Driver \<times> error option" where
  "ChangeDir d path = (let copy = d\<lparr>cwd := path\<rparr> in (d, None))"

text \<open>
  The loop of \<open>ListDir\<close> over the listed objects, with the set \<open>folders\<close> of the
  pseudo-directory names seen so far. The result is the sequence of entries handed to
  the callback; an error of the callback is logged and the loop goes on.
\<close>

fun listLoop :: "string \<Rightarrow> Object list \<Rightarrow> string set \<Rightarrow> S3ObjectInfo list" where
  "listLoop prefixKey [] folders = []"
| "listLoop prefixKey (object # rest) folders =
     (if prefixKey \<noteq> [] \<and> \<not> HasPrefix (Key object) prefixKey
      then listLoop prefixKey rest folders
      else
        let name = (if prefixKey \<noteq> [] then TrimPrefix (Key object) prefixKey else Key object);
            owner = (case Owner object of None \<Rightarrow> [] | Some ident \<Rightarrow> ident);
            trimName = TrimPrefix name ''/'';
            isPrefix = Contains trimName CHR ''/'';
            name = (if isPrefix then hd (Split name CHR ''/'') else name);
            finalName = TrimPrefix name ''/''
        in if isPrefix \<and> finalName \<in> folders then listLoop prefixKey rest folders
           else \<lparr>name = finalName, objSize = Size object, owner = owner,
                  modTime = Modified object, isPrefix = isPrefix\<rparr>
                # listLoop prefixKey rest (if isPrefix then insert finalName folders else folders))"

definition ListDir :: "'s S3Driver \<Rightarrow> 's \<Rightarrow> string \<Rightarrow> S3ObjectInfo list \<times> error option" where
  "ListDir d st key =
     (if featureFlags d AND featureList = 0 then ([], Some (notEnabled ''LS''))
      else
        case bucketCheck d st of
          Some err \<Rightarrow> ([], Some (Wrapf err ''Bucket check failed'' []))
        | None \<Rightarrow>
            (case ListObjects (s3 d) st (bucketName d) of
               Inl err \<Rightarrow> ([], Some (AwsError err))
             | Inr contents \<Rightarrow> (listLoop (TrimPrefix key ''/'') contents {}, None)))"

definition DeleteDir :: "'s S3Driver \<Rightarrow> string \<Rightarrow> error option" where
  "DeleteDir d key = Some (notEnabled ''RMDIR'')"

definition Rename :: "'s S3Driver \<Rightarrow> string \<Rightarrow> string \<Rightarrow> error option" where
  "Rename d oldKey newKey = Some (notEnabled ''MV'')"

definition MakeDir :: "'s S3Driver \<Rightarrow> string \<Rightarrow> error option" where
  "MakeDir d key = Some (notEnabled ''MKDIR'')"

definition objectExists :: "'s S3Driver \<Rightarrow> 's \<Rightarrow> string \<Rightarrow> bool" where
  "objectExists d st key =
     (case HeadObject (s3 d) st (bucketName d) key of
        Inl err \<Rightarrow> if Code err = ''NotFound'' then False else False
      | Inr resp \<Rightarrow> True)"

definition objectSize :: "'s S3Driver \<Rightarrow> 's \<Rightarrow> string \<Rightarrow> int \<times> error option" where
  "objectSize d st key =
     (case HeadObject (s3 d) st (bucketName d) key of
        Inl err \<Rightarrow> (- 1, Some (Wrapf (AwsError err) ''Failed to check size of object %q'' [fqdn d key]))
      | Inr resp \<Rightarrow> ((case ContentLength resp of None \<Rightarrow> 0 | Some n \<Rightarrow> n), None))"

text \<open>
  \<open>PutFile\<close>: \<open>data\<close> is \<open>None\<close> for a nil reader, else the bytes the reader yields.
  The result is the pair the method returns and the store after the call.
\<close>

definition PutFile ::
  "'s S3Driver \<Rightarrow> 's \<Rightarrow> string \<Rightarrow> string option \<Rightarrow> bool \<Rightarrow> (int \<times> error option) \<times> 's" where
  "PutFile d st key data appendMode =
     (if featureFlags d AND featurePut = 0 then ((- 1, Some (notEnabled ''PUT'')), st)
      else
        case data of
          None \<Rightarrow> ((- 1, Some EmptyData), st)
        | Some body \<Rightarrow>
            if appendMode then ((- 1, Some (AppendUnsupported (fqdn d key))), st)
            else if noOverwrite d \<and> objectExists d st key
            then ((- 1, Some (AlreadyExists (fqdn d key))), st)
            else
              (case Upload (uploader d) st (bucketName d) key body of
                 (Some err, st') \<Rightarrow> ((- 1, Some (PutFailed (fqdn d key))), st')
               | (None, st') \<Rightarrow> (objectSize d st' key, st')))"

text \<open>
  A store in memory, for the concrete instances below: the state is the list of the
  objects; a missing key is answered with the code \<open>NotFound\<close>. \<open>faultyS3 err\<close> is a
  reachable bucket whose \<open>HeadObject\<close> fails with \<open>err\<close>.
\<close>

definition memS3 :: "Object list S3API" where
  "memS3 = \<lparr>HeadBucket = (\<lambda>st bucket. None),
            HeadObject = (\<lambda>st bucket key.
              case find (\<lambda>obj. Key obj = key) st of
                None \<Rightarrow> Inl (AwsErr ''NotFound'' ''Not Found'')
              | Some obj \<Rightarrow> Inr \<lparr>ContentLength = Some (Size obj), LastModified = Some (Modified obj)\<rparr>),
            ListObjects = (\<lambda>st bucket. Inr st)\<rparr>"

definition faultyS3 :: "awsErr \<Rightarrow> Object list S3API" where
  "faultyS3 err = memS3\<lparr>HeadObject := (\<lambda>st bucket key. Inl err)\<rparr>"

definition memUploader :: "Object list UploaderAPI" where
  "memUploader = \<lparr>Upload = (\<lambda>st bucket key body.
      (None, \<lparr>Key = key, Size = int (length body), Modified = 0, Owner = None\<rparr>
             # filter (\<lambda>obj. Key obj \<noteq> key) st))\<rparr>"

definition memDriver :: "int \<Rightarrow> bool \<Rightarrow> Object list S3API \<Rightarrow> Object list S3Driver" where
  "memDriver flags noOver api =
     \<lparr>featureFlags = flags, noOverwrite = noOver, s3 = api, uploader = memUploader,
      hostname = [], bucketName = ''bucket'',
      bucketURL = \<lparr>Scheme = ''https'', Opaque = [], Host = ''bucket.example.com'', Path = []\<rparr>,
      cwd = []\<rparr>"

section \<open>The version 2 signer\<close>

text \<open>
  The library functions the signer calls and that are taken as given: the HMAC with
  SHA-1 of a message under a key (\<open>crypto/hmac\<close>, \<open>crypto/sha1\<close>), the standard base64
  encoding, the formatting of a time in UTC by \<open>timeFormat\<close>, and the case mapping
  of Unicode that \<open>ToLower\<close> uses on a string that is not ASCII.
\<close>

record Lib =
  hmacSHA1 :: "string \<Rightarrow> string \<Rightarrow> string"
  base64 :: "string \<Rightarrow> string"
  Format :: "Time \<Rightarrow> string"
  MapLower :: "string \<Rightarrow> string"

text \<open>The sub-resources that enter the canonical query, in the order of the source.\<close>

definition subresources :: "string list" where
  "subresources =
     [''acl'', ''delete'', ''lifecycle'', ''location'', ''logging'', ''notification'',
      ''partNumber'', ''policy'', ''requestPayment'', ''torrent'', ''uploadId'', ''uploads'',
      ''versionId'', ''versioning'', ''versions'', ''website'']"

text \<open>
  \<open>http.Header\<close> and \<open>url.Values\<close> are maps from a name to a list of values. A header
  is kept as the list of its entries, since the signer runs over them; the order of
  the list is the order in which the \<open>range\<close> loop happens to visit the map.
\<close>

type_synonym Header = "(string \<times> string list) list"
type_synonym Values = "string \<Rightarrow> string list option"

definition upperChar :: "char \<Rightarrow> char" where
  "upperChar c = (if 97 \<le> (of_char c :: nat) \<and> (of_char c :: nat) \<le> 122
                  then char_of ((of_char c :: nat) - 32) else c)"

text \<open>The bytes of a header field name (\<open>validHeaderFieldByte\<close>).\<close>

definition validHeaderFieldByte :: "char \<Rightarrow> bool" where
  "validHeaderFieldByte c =
     (isAlnum c \<or> c = CHR ''!'' \<or> c = CHR ''#'' \<or> c = CHR ''$'' \<or> c = CHR ''%''
      \<or> c = CHR ''&'' \<or> c = CHR 0x27 \<or> c = CHR ''*'' \<or> c = CHR ''+'' \<or> c = CHR ''-''
      \<or> c = CHR ''.'' \<or> c = CHR ''^'' \<or> c = CHR ''_'' \<or> c = CHR 0x60 \<or> c = CHR ''|''
      \<or> c = CHR ''~'')"

text \<open>
  \<open>http.CanonicalHeaderKey\<close>: a name of valid bytes gets an upper-case first letter
  and an upper-case letter after each hyphen, the other letters in lower case; any
  other name is returned as it is.
\<close>

fun canonicalLoop :: "bool \<Rightarrow> string \<Rightarrow> string" where
  "canonicalLoop upper [] = []"
| "canonicalLoop upper (c # cs) =
     (let c = (if upper then upperChar c else lowerChar c)
      in c # canonicalLoop (c = CHR ''-'') cs)"

definition CanonicalHeaderKey :: "string \<Rightarrow> string" where
  "CanonicalHeaderKey s = (if list_all validHeaderFieldByte s then canonicalLoop True s else s)"

text \<open>The value list under a key of a map kept as a list; a missing key gives the nil list.\<close>

definition lookupValues :: "Header \<Rightarrow> string \<Rightarrow> string list" where
  "lookupValues h key = (case map_of h key of None \<Rightarrow> [] | Some vs \<Rightarrow> vs)"

definition Header_Get :: "Header \<Rightarrow> string \<Rightarrow> string" where
  "Header_Get h key = (case lookupValues h (CanonicalHeaderKey key) of [] \<Rightarrow> [] | v # vs \<Rightarrow> v)"

definition Header_Set :: "Header \<Rightarrow> string \<Rightarrow> string \<Rightarrow> Header" where
  "Header_Set h key val = AList.update (CanonicalHeaderKey key) [val] h"

definition Header_Del :: "Header \<Rightarrow> string \<Rightarrow> Header" where
  "Header_Del h key = AList.delete (CanonicalHeaderKey key) h"

definition Values_Get :: "Values \<Rightarrow> string \<Rightarrow> string" where
  "Values_Get q key = (case q key of None \<Rightarrow> [] | Some [] \<Rightarrow> [] | Some (v # vs) \<Rightarrow> v)"

text \<open>
  \<open>url.QueryEscape\<close>: unreserved bytes stay, a space becomes \<open>+\<close>, every other byte
  is percent-encoded. \<open>rest.EscapePath(path, false)\<close>: unreserved bytes and \<open>/\<close>
  stay. \<open>ReplaceAll s c r\<close> is \<open>strings.Replace(s, c, r, -1)\<close> for one byte \<open>c\<close>.
\<close>

definition QueryEscape :: "string \<Rightarrow> string" where
  "QueryEscape s =
     concat (map (\<lambda>c. if unreserved c then [c] else if c = CHR '' '' then ''+'' else pctEncode c) s)"

definition EscapePath :: "string \<Rightarrow> bool \<Rightarrow> string" where
  "EscapePath path encodeSep =
     concat (map (\<lambda>c. if unreserved c \<or> (c = CHR ''/'' \<and> \<not> encodeSep) then [c] else pctEncode c) path)"

definition ReplaceAll :: "string \<Rightarrow> char \<Rightarrow> string \<Rightarrow> string" where
  "ReplaceAll s c r = concat (map (\<lambda>x. if x = c then r else [x]) s)"

text \<open>\<open>strings.Index(s, c)\<close> for one byte: the first position of \<open>c\<close>, or \<open>-1\<close>.\<close>

fun Index :: "string \<Rightarrow> char \<Rightarrow> int" where
  "Index [] c = - 1"
| "Index (x # xs) c = (if x = c then 0 else (let i = Index xs c in if i = - 1 then - 1 else i + 1))"

text \<open>\<open>strings.SplitN(s, c, 2)\<close> for one byte: cut at the first \<open>c\<close>, if there is one.\<close>

definition SplitN2 :: "string \<Rightarrow> char \<Rightarrow> string list" where
  "SplitN2 s c = (let i = Index s c in
                    if i = - 1 then [s] else [take (nat i) s, drop (nat i + 1) s])"

text \<open>
  The request as the signer reads it. \<open>URLQuery\<close> is the answer of \<open>URL.Query()\<close>, the
  parsed query of the URL. \<open>Credentials\<close> is the answer of \<open>Credentials.Get()\<close>. The
  debug level and the logger are left out.
\<close>

record Value =
  AccessKeyID :: string
  SecretAccessKey :: string
  SessionToken :: string

record Request =
  Method :: string
  ReqURL :: URL
  URLQuery :: Values
  Header :: Header

record signer =
  Request :: Request
  Time :: Time
  Credentials :: "error + Value"
  pathStyle :: bool
  bucket :: string
  Query :: Values
  stringToSign :: string
  signature :: string

text \<open>
  The steps of \<open>Sign\<close>, in the order of the source. \<open>signURI\<close>: the path of an opaque
  URL is what follows its third \<open>/\<close>, cut before a \<open>?\<close> (the slice \<open>[3:]\<close> panics when
  there are fewer than three pieces); otherwise the path of the URL.
\<close>

definition signURI :: "URL \<Rightarrow> error + string" where
  "signURI u =
     (let uri = Opaque u in
      if uri \<noteq> [] then
        let questionMark = Index uri CHR ''?'';
            uri = (if questionMark \<noteq> - 1 then take (nat questionMark) uri else uri);
            pieces = Split uri CHR ''/''
        in if length pieces < 3 then Inl Panic
           else Inr (''/'' @ Join (drop 3 pieces) ''/'')
      else Inr (Path u))"

definition signPath :: "bool \<Rightarrow> URL \<Rightarrow> string \<Rightarrow> string" where
  "signPath usePathStyle u uri =
     (let path = EscapePath uri False;
          path = (if \<not> usePathStyle
                  then (let host = hd (SplitN2 (Host u) CHR ''.'') in ''/'' @ host @ uri)
                  else path)
      in if path = [] then ''/'' else path)"

text \<open>The loop over \<open>subresources\<close> that collects the encoded keys and values.\<close>

fun queryKeysAndValues :: "string list \<Rightarrow> Values \<Rightarrow> string list \<Rightarrow> string list" where
  "queryKeysAndValues [] q acc = acc"
| "queryKeysAndValues (key # keys) q acc =
     (case q key of
        None \<Rightarrow> queryKeysAndValues keys q acc
      | Some vals \<Rightarrow>
          let k = ReplaceAll (QueryEscape key) CHR ''+'' ''%20'';
              v = ReplaceAll (QueryEscape (Values_Get q key)) CHR ''+'' ''%20'';
              v = (if v \<noteq> [] then ''='' @ v else v)
          in queryKeysAndValues keys q (acc @ [k @ v]))"

definition signQuery :: "Values \<Rightarrow> string \<Rightarrow> string" where
  "signQuery q path =
     (let query = Join (queryKeysAndValues subresources q []) ''&''
      in if query \<noteq> [] then path @ ''?'' @ query else path)"

text \<open>The loop over the header names, and the loop over the sorted names.\<close>

fun vendorHeaders :: "(string \<Rightarrow> string) \<Rightarrow> string list \<Rightarrow> string list \<Rightarrow> string list" where
  "vendorHeaders mapLower [] headers = headers"
| "vendorHeaders mapLower (k # ks) headers =
     (let k = ToLower mapLower k in
      if HasPrefix k ''x-amz-'' then vendorHeaders mapLower ks (headers @ [k])
      else vendorHeaders mapLower ks headers)"

fun headerLines :: "Header \<Rightarrow> string list \<Rightarrow> string list \<Rightarrow> string list" where
  "headerLines h [] tmp = tmp"
| "headerLines h (k # ks) tmp =
     (let v = Join (lookupValues h (CanonicalHeaderKey k)) '','' in
      headerLines h ks (tmp @ [k @ '':'' @ v]))"

text \<open>
  \<open>Sign\<close> has a pointer receiver and the request is a pointer: the result is the error
  and the signer, with its request, after the call.
\<close>

definition Sign :: "Lib \<Rightarrow> signer \<Rightarrow> error option \<times> signer" where
  "Sign lib v2 =
     (case Credentials v2 of
        Inl err \<Rightarrow> (Some err, v2)
      | Inr credValue \<Rightarrow>
          let v2 = v2\<lparr>Query := URLQuery (Request v2)\<rparr>;
              contentMD5 = Header_Get (Header (Request v2)) ''Content-MD5'';
              contentType = Header_Get (Header (Request v2)) ''Content-Type'';
              date = Format lib (Time v2);
              h = Header_Set (Header (Request v2)) ''x-amz-date'' date;
              h = (if SessionToken credValue \<noteq> []
                   then Header_Set h ''x-amz-security-token'' (SessionToken credValue) else h);
              h = Header_Del h ''Authorization'';
              v2 = v2\<lparr>Request := (Request v2)\<lparr>Header := h\<rparr>\<rparr>;
              method = Method (Request v2)
          in case signURI (ReqURL (Request v2)) of
               Inl e \<Rightarrow> (Some e, v2)
             | Inr uri \<Rightarrow>
                 let path = signPath (pathStyle v2) (ReqURL (Request v2)) uri;
                     path = signQuery (Query v2) path;
                     tmp = [method, contentMD5, contentType, []];
                     headers = sort (vendorHeaders (MapLower lib) (map fst (Header (Request v2))) []);
                     tmp = headerLines (Header (Request v2)) headers tmp;
                     tmp = tmp @ [path];
                     v2 = v2\<lparr>stringToSign := Join tmp [CHR 0x0A]\<rparr>;
                     v2 = v2\<lparr>signature :=
                            base64 lib (hmacSHA1 lib (SecretAccessKey credValue) (stringToSign v2))\<rparr>;
                     v2 = v2\<lparr>Request := (Request v2)\<lparr>Header :=
                            Header_Set (Header (Request v2)) ''Authorization''
                              (''AWS '' @ AccessKeyID credValue @ '':'' @ signature v2)\<rparr>\<rparr>
                 in (None, v2))"

text \<open>
  The encoding the specification describes for the keys and values of the canonical
  query: unreserved bytes stay, every other byte, the space too, is percent-encoded.
\<close>

definition encodeComponent :: "string \<Rightarrow> string" where
  "encodeComponent s = concat (map (\<lambda>c. if unreserved c then [c] else pctEncode c) s)"

text \<open>
  The whitelist as the specification lists it (fifteen names), each name written as
  the source spells it.
\<close>

definition claimedSubresources :: "string list" where
  "claimedSubresources =
     [''acl'', ''lifecycle'', ''location'', ''logging'', ''notification'', ''partNumber'',
      ''policy'', ''requestPayment'', ''torrent'', ''uploadId'', ''uploads'', ''versionId'',
      ''versioning'', ''versions'', ''website'']"

text \<open>
  The canonical string as the specification describes it. \<open>vendorLines\<close>: every
  header whose lower-cased name begins with the vendor prefix, sorted by that
  lower-cased name, each as \<open>name:value\<close> with the values joined by commas (the
  names of a header are field names, of ASCII bytes).
  \<open>signingHeader\<close> is the header that is signed: the header of the request with the
  date header set, the token header set when there is a session token, and without
  an authorization header.
\<close>

definition vendorLines :: "Header \<Rightarrow> string list" where
  "vendorLines h =
     map (\<lambda>(k, vs). asciiLower k @ '':'' @ Join vs '','')
       (sort_key (\<lambda>(k, vs). asciiLower k)
          (filter (\<lambda>(k, vs). HasPrefix (asciiLower k) ''x-amz-'') h))"

definition signingHeader :: "Header \<Rightarrow> string \<Rightarrow> Value \<Rightarrow> Header" where
  "signingHeader h date cred =
     Header_Del
       (if SessionToken cred \<noteq> []
        then Header_Set (Header_Set h ''x-amz-date'' date) ''x-amz-security-token'' (SessionToken cred)
        else Header_Set h ''x-amz-date'' date)
       ''Authorization''"

text \<open>
  The header of a request keeps one entry for a name, and its names are field names
  (of valid bytes) in the canonical form, as \<open>http.Header\<close> asks for.
\<close>

definition wellFormedHeader :: "Header \<Rightarrow> bool" where
  "wellFormedHeader h =
     (distinct (map fst h)
      \<and> list_all (\<lambda>k. list_all validHeaderFieldByte k \<and> CanonicalHeaderKey k = k) (map fst h))"

text \<open>
  A concrete request for the instances below. \<open>tagLib\<close> stands in for the library:
  its functions write out what they are applied to, and the date is fixed.
\<close>

definition tagLib :: Lib where
  "tagLib = \<lparr>hmacSHA1 = (\<lambda>k m. ''hmac('' @ k @ '','' @ m @ '')''),
             base64 = (\<lambda>s. ''base64('' @ s @ '')''),
             Format = (\<lambda>t. ''Thu, 1 Jan 2026 00:00:00 +0000''),
             MapLower = id\<rparr>"

definition exampleSigner :: signer where
  "exampleSigner =
     \<lparr>Request = \<lparr>Method = ''GET'',
                  ReqURL = \<lparr>Scheme = ''https'', Opaque = [], Host = ''bucket.s3.example.com'',
                             Path = ''/key.txt''\<rparr>,
                  URLQuery = Map.empty,
                  Header = [(''Content-Type'', [''text/plain'']), (''X-Amz-Meta-B'', [''1'', ''2'']),
                            (''X-Amz-Acl'', [''private''])]\<rparr>,
      Time = 0,
      Credentials = Inr \<lparr>AccessKeyID = ''AK'', SecretAccessKey = ''SK'', SessionToken = []\<rparr>,
      pathStyle = False, bucket = [], Query = Map.empty, stringToSign = [], signature = []\<rparr>"

section \<open>Properties of the capability set\<close>

lemma featureFlag_power:
  assumes "featureFlag verb = Some b"
  shows "\<exists>k. b = 2 ^ k"
proof -
  have "b \<in> {2 ^ 0, 2 ^ 1, 2 ^ 2, 2 ^ 3, 2 ^ 4, 2 ^ 5, 2 ^ 6, 2 ^ 7}"
    using assms
    by (simp add: featureFlag_def featureChangeDir_def featureList_def featureRemoveDir_def
        featureRemove_def featureMove_def featureMakeDir_def featureGet_def featurePut_def
        split: if_splits)
  then show ?thesis by blast
qed

lemma featureFlag_inject:
  assumes "featureFlag n = Some b" and "featureFlag m = Some b"
  shows "n = m"
  using assms
  by (simp add: featureFlag_def featureChangeDir_def featureList_def featureRemoveDir_def
      featureRemove_def featureMove_def featureMakeDir_def featureGet_def featurePut_def
      split: if_splits)

lemma featureFlag_None: "featureFlag verb = None \<longleftrightarrow> verb \<notin> knownVerbs"
  by (simp add: featureFlag_def knownVerbs_def)

text \<open>The loop stops at the first token that is not known, and names it.\<close>

lemma parseFeatures_first_unknown:
  assumes "\<forall>u \<in> set ts1. featureFlag (ToLower mapLower u) \<noteq> None"
    and "featureFlag (ToLower mapLower t) = None"
  shows "parseFeatures mapLower (ts1 @ t # ts2) acc = (0, Some (UnknownFeatureFlag t))"
  using assms
proof (induction ts1 arbitrary: acc)
  case Nil
  then show ?case by simp
next
  case (Cons u us)
  then obtain b where "featureFlag (ToLower mapLower u) = Some b" by auto
  with Cons show ?case by simp
qed

lemma parseFeatures_known:
  assumes "\<forall>t \<in> set ts. featureFlag (ToLower mapLower t) \<noteq> None"
  shows "snd (parseFeatures mapLower ts acc) = None
         \<and> (\<forall>k. bit (fst (parseFeatures mapLower ts acc)) k
                \<longleftrightarrow> bit acc k \<or> (\<exists>t \<in> set ts. featureFlag (ToLower mapLower t) = Some (2 ^ k)))"
  using assms
proof (induction ts arbitrary: acc)
  case Nil
  then show ?case by simp
next
  case (Cons t ts)
  then obtain b where b: "featureFlag (ToLower mapLower t) = Some b" by auto
  then obtain j where j: "b = 2 ^ j" using featureFlag_power by blast
  have rest: "\<forall>u \<in> set ts. featureFlag (ToLower mapLower u) \<noteq> None" using Cons.prems by simp
  have pow: "(2::int) ^ j = 2 ^ k \<longleftrightarrow> j = k" for k by simp
  from Cons.IH [OF rest, of "acc OR b"] b j show ?case
    by (auto simp add: bit_or_iff bit_exp_iff pow)
qed

text \<open>
  Claim C4, as the code has it. An empty or blank string is refused with the
  empty-feature-set error. Otherwise the string is stripped of the white space around
  it, and only there, and the stripped string is cut at the commas. If some token of
  the stripped string, lower-cased, is not a known verb name, parsing fails and the
  error names the first such token, as it is written. If every token, lower-cased, is
  a known verb name, parsing succeeds and \<open>has\<close> holds of the result for the bit of
  a verb exactly when that verb is one of the lower-cased tokens.
\<close>

theorem parseFeatureSet_spec:
  "(TrimSpace s = [] \<longrightarrow> parseFeatureSet mapLower s = (0, Some EmptyFeatureSet))
   \<and> (TrimSpace s \<noteq> [] \<longrightarrow>
        ((\<exists>t \<in> set (Split (TrimSpace s) CHR '',''). ToLower mapLower t \<notin> knownVerbs) \<longrightarrow>
           (\<exists>ts1 t ts2. Split (TrimSpace s) CHR '','' = ts1 @ t # ts2
              \<and> (\<forall>u \<in> set ts1. ToLower mapLower u \<in> knownVerbs)
              \<and> ToLower mapLower t \<notin> knownVerbs
              \<and> parseFeatureSet mapLower s = (0, Some (UnknownFeatureFlag t))))
        \<and> ((\<forall>t \<in> set (Split (TrimSpace s) CHR '',''). ToLower mapLower t \<in> knownVerbs) \<longrightarrow>
             snd (parseFeatureSet mapLower s) = None
             \<and> (\<forall>verb b. featureFlag verb = Some b \<longrightarrow>
                  (has (fst (parseFeatureSet mapLower s)) b
                     \<longleftrightarrow> verb \<in> ToLower mapLower ` set (Split (TrimSpace s) CHR '','')))))"
proof (intro conjI impI)
  assume "TrimSpace s = []"
  then show "parseFeatureSet mapLower s = (0, Some EmptyFeatureSet)"
    by (simp add: parseFeatureSet_def)
next
  let ?toks = "Split (TrimSpace s) CHR '',''"
  assume ne: "TrimSpace s \<noteq> []"
    and "\<exists>t \<in> set ?toks. ToLower mapLower t \<notin> knownVerbs"
  then have "\<exists>t \<in> set ?toks. featureFlag (ToLower mapLower t) = None"
    by (simp add: featureFlag_None)
  then obtain ts1 t ts2 where split: "?toks = ts1 @ t # ts2"
    and t: "featureFlag (ToLower mapLower t) = None"
    and before: "\<forall>u \<in> set ts1. featureFlag (ToLower mapLower u) \<noteq> None"
    using split_list_first_prop [of ?toks "\<lambda>t. featureFlag (ToLower mapLower t) = None"]
    by blast
  have "parseFeatureSet mapLower s = parseFeatures mapLower (ts1 @ t # ts2) 0"
    using ne split by (simp add: parseFeatureSet_def)
  also have "\<dots> = (0, Some (UnknownFeatureFlag t))"
    using before t by (rule parseFeatures_first_unknown)
  finally have res: "parseFeatureSet mapLower s = (0, Some (UnknownFeatureFlag t))" .
  have "\<forall>u \<in> set ts1. ToLower mapLower u \<in> knownVerbs"
    using before by (simp add: featureFlag_None)
  moreover have "ToLower mapLower t \<notin> knownVerbs"
    using t by (simp add: featureFlag_None)
  ultimately show "\<exists>ts1 t ts2. ?toks = ts1 @ t # ts2
              \<and> (\<forall>u \<in> set ts1. ToLower mapLower u \<in> knownVerbs)
              \<and> ToLower mapLower t \<notin> knownVerbs
              \<and> parseFeatureSet mapLower s = (0, Some (UnknownFeatureFlag t))"
    using split res by blast
next
  let ?toks = "Split (TrimSpace s) CHR '',''"
  assume ne: "TrimSpace s \<noteq> []"
    and "\<forall>t \<in> set ?toks. ToLower mapLower t \<in> knownVerbs"
  then have known: "\<forall>t \<in> set ?toks. featureFlag (ToLower mapLower t) \<noteq> None"
    by (simp add: featureFlag_None)
  have eq: "parseFeatureSet mapLower s = parseFeatures mapLower ?toks 0"
    using ne by (simp add: parseFeatureSet_def)
  from parseFeatures_known [OF known, of 0] eq
  show "snd (parseFeatureSet mapLower s) = None" by simp
  show "\<forall>verb b. featureFlag verb = Some b \<longrightarrow>
          (has (fst (parseFeatureSet mapLower s)) b \<longleftrightarrow> verb \<in> ToLower mapLower ` set ?toks)"
  proof (intro allI impI)
    fix verb b
    assume vb: "featureFlag verb = Some b"
    then obtain k where k: "b = 2 ^ k" using featureFlag_power by blast
    have "has (fst (parseFeatureSet mapLower s)) b \<longleftrightarrow> bit (fst (parseFeatureSet mapLower s)) k"
      by (simp add: has_def k and_exp_eq_0_iff_not_bit)
    also have "\<dots> \<longleftrightarrow> (\<exists>t \<in> set ?toks. featureFlag (ToLower mapLower t) = Some (2 ^ k))"
      using parseFeatures_known [OF known, of 0] eq by simp
    also have "\<dots> \<longleftrightarrow> verb \<in> ToLower mapLower ` set ?toks"
    proof
      assume "\<exists>t \<in> set ?toks. featureFlag (ToLower mapLower t) = Some (2 ^ k)"
      then obtain t where "t \<in> set ?toks"
        and "featureFlag (ToLower mapLower t) = Some b" using k by blast
      then show "verb \<in> ToLower mapLower ` set ?toks"
        using featureFlag_inject [OF vb] by blast
    next
      assume "verb \<in> ToLower mapLower ` set ?toks"
      then show "\<exists>t \<in> set ?toks. featureFlag (ToLower mapLower t) = Some (2 ^ k)"
        using vb k by auto
    qed
    finally show "has (fst (parseFeatureSet mapLower s)) b
                    \<longleftrightarrow> verb \<in> ToLower mapLower ` set ?toks" .
  qed
qed

lemma ToLower_examples:
  "ToLower id ''ls'' = ''ls''" "ToLower id ''LS'' = ''ls''" "ToLower id ''get'' = ''get''"
  "ToLower id ''Foo'' = ''foo''" "ToLower id '' get'' = '' get''" "ToLower id '' LS'' = '' ls''"
  by (simp_all add: ToLower_def asciiLower_def isASCII_def lowerChar_def char_of_def bit_Suc_0_iff)

lemma TrimSpace_examples:
  "TrimSpace ''  '' = []" "TrimSpace ''ls,Foo'' = ''ls,Foo''" "TrimSpace ''ls, get'' = ''ls, get''"
  "TrimSpace '' LS,get'' = ''LS,get''"
  by (simp_all add: TrimSpace_def isSpace_def isSpace2_def isSpace3_def)

theorem parseFeatureSet_spec_witness:
  "parseFeatureSet id ''  '' = (0, Some EmptyFeatureSet)
   \<and> parseFeatureSet id ''ls,Foo'' = (0, Some (UnknownFeatureFlag ''Foo''))
   \<and> parseFeatureSet id ''ls, get'' = (0, Some (UnknownFeatureFlag '' get''))
   \<and> snd (parseFeatureSet id '' LS,get'') = None
   \<and> has (fst (parseFeatureSet id '' LS,get'')) featureList
   \<and> has (fst (parseFeatureSet id '' LS,get'')) featureGet
   \<and> \<not> has (fst (parseFeatureSet id '' LS,get'')) featurePut"
proof -
  have f: "featureFlag ''ls'' = Some featureList" "featureFlag ''get'' = Some featureGet"
    "featureFlag ''put'' = Some featurePut"
    by (simp_all add: featureFlag_def)
  have s: "Split ''ls,Foo'' CHR '','' = [''ls'', ''Foo'']"
    "Split ''ls, get'' CHR '','' = [''ls'', '' get'']"
    "Split ''LS,get'' CHR '','' = [''LS'', ''get'']"
    by simp_all
  have "parseFeatureSet id ''  '' = (0, Some EmptyFeatureSet)"
    using parseFeatureSet_spec [of "''  ''" id] by (simp add: TrimSpace_examples)
  moreover have "parseFeatureSet id ''ls,Foo'' = (0, Some (UnknownFeatureFlag ''Foo''))"
    using parseFeatureSet_spec [of "''ls,Foo''" id]
    by (auto simp add: TrimSpace_examples ToLower_examples s knownVerbs_def Cons_eq_append_conv)
  moreover have "parseFeatureSet id ''ls, get'' = (0, Some (UnknownFeatureFlag '' get''))"
    using parseFeatureSet_spec [of "''ls, get''" id]
    by (auto simp add: TrimSpace_examples ToLower_examples s knownVerbs_def Cons_eq_append_conv)
  moreover have "snd (parseFeatureSet id '' LS,get'') = None
     \<and> has (fst (parseFeatureSet id '' LS,get'')) featureList
     \<and> has (fst (parseFeatureSet id '' LS,get'')) featureGet
     \<and> \<not> has (fst (parseFeatureSet id '' LS,get'')) featurePut"
    using parseFeatureSet_spec [of "'' LS,get''" id] f
    by (simp add: TrimSpace_examples ToLower_examples s knownVerbs_def)
  ultimately show ?thesis by blast
qed

text \<open>
  The claim as stated fails: the first comma-separated token of \<open>'' LS,get''\<close> is
  \<open>'' LS''\<close>, which lower-cased is not a known verb name, and yet parsing succeeds,
  with the bits of \<open>ls\<close> and \<open>get\<close>.
\<close>

theorem parseFeatureSet_token_counterexample:
  "'' LS'' \<in> set (Split '' LS,get'' CHR '','')
   \<and> ToLower id '' LS'' \<notin> knownVerbs
   \<and> parseFeatureSet id '' LS,get'' = (featureList OR featureGet, None)"
  by (simp add: parseFeatureSet_def TrimSpace_examples ToLower_examples knownVerbs_def
      featureFlag_def)

text \<open>
  White space of Unicode around the string is removed as the ASCII one: a no-break
  space (U+00A0) before \<open>ls\<close>, an ideographic space (U+3000) after it.
\<close>

lemma parseFeatureSet_unicode_space:
  "parseFeatureSet id ([CHR 0xC2, CHR 0xA0] @ ''ls'' @ [CHR 0xE3, CHR 0x80, CHR 0x80])
     = (featureList, None)"
  by (simp add: parseFeatureSet_def TrimSpace_def isSpace_def isSpace2_def isSpace3_def
      ToLower_examples featureFlag_def)

text \<open>
  A token that is not ASCII is lower-cased by the case mapping of the library: where
  that mapping turns the Kelvin sign (U+212A) into \<open>k\<close>, the token \<open>m\<close>, Kelvin sign,
  \<open>dir\<close> is the verb \<open>mkdir\<close>.
\<close>

lemma parseFeatureSet_unicode_letter:
  assumes "mapLower (''m'' @ [CHR 0xE2, CHR 0x84, CHR 0xAA] @ ''dir'') = ''mkdir''"
  shows "parseFeatureSet mapLower (''m'' @ [CHR 0xE2, CHR 0x84, CHR 0xAA] @ ''dir'')
           = (featureMakeDir, None)"
proof -
  have "ToLower mapLower (''m'' @ [CHR 0xE2, CHR 0x84, CHR 0xAA] @ ''dir'') = ''mkdir''"
    using assms by (simp add: ToLower_def isASCII_def)
  moreover have "TrimSpace (''m'' @ [CHR 0xE2, CHR 0x84, CHR 0xAA] @ ''dir'')
                   = ''m'' @ [CHR 0xE2, CHR 0x84, CHR 0xAA] @ ''dir''"
    by (simp add: TrimSpace_def isSpace_def isSpace2_def isSpace3_def)
  ultimately show ?thesis
    by (simp add: parseFeatureSet_def featureFlag_def)
qed

section \<open>Properties of the driver\<close>

lemma Split_not_Nil: "Split s c \<noteq> []"
  by (induction s) (auto split: list.splits)

text \<open>
  Claim C1. When the bucket check has passed, so that the head-object call is made,
  and that call fails: if the code of the failure is \<open>NotFound\<close>, \<open>Stat\<close> returns
  the entry of a pseudo-directory for the key (\<open>isPrefix\<close> true, size 0, the current
  time) and no error; for every other failure \<open>Stat\<close> returns that store error as it
  is.
\<close>

theorem Stat_head_failure:
  assumes "bucketCheck d st = None"
    and "HeadObject (s3 d) st (bucketName d) key = Inl err"
  shows "(Code err = ''NotFound'' \<longrightarrow>
            Stat d st now key =
              (\<lparr>name = key, objSize = 0, owner = [], modTime = now, isPrefix = True\<rparr>, None))
         \<and> (Code err \<noteq> ''NotFound'' \<longrightarrow> Stat d st now key = (emptyInfo, Some (AwsError err)))"
  using assms by (simp add: Stat_def)

theorem Stat_head_failure_witness:
  "Stat (memDriver featureList False memS3) [] 99 ''reports'' =
     (\<lparr>name = ''reports'', objSize = 0, owner = [], modTime = 99, isPrefix = True\<rparr>, None)
   \<and> Stat (memDriver featureList False (faultyS3 (AwsErr ''Forbidden'' ''Access Denied''))) [] 99 ''reports'' =
     (emptyInfo, Some (AwsError (AwsErr ''Forbidden'' ''Access Denied'')))"
  using Stat_head_failure [of "memDriver featureList False memS3" "[]" "''reports''"
      "AwsErr ''NotFound'' ''Not Found''" 99]
    Stat_head_failure [of "memDriver featureList False (faultyS3 (AwsErr ''Forbidden'' ''Access Denied''))"
      "[]" "''reports''" "AwsErr ''Forbidden'' ''Access Denied''" 99]
  by (simp add: bucketCheck_def memDriver_def memS3_def faultyS3_def)

text \<open>
  Claim C9. When the bucket check has passed and the head-object call succeeds,
  \<open>Stat\<close> returns no error and an entry for the key whose \<open>isPrefix\<close> flag is true,
  with the size and the modification time of the answer (0 and the current time where
  the answer does not carry them).
\<close>

theorem Stat_existing_object:
  assumes "bucketCheck d st = None"
    and "HeadObject (s3 d) st (bucketName d) key = Inr resp"
  shows "snd (Stat d st now key) = None
         \<and> isPrefix (fst (Stat d st now key)) = True
         \<and> name (fst (Stat d st now key)) = key
         \<and> objSize (fst (Stat d st now key)) = (case ContentLength resp of None \<Rightarrow> 0 | Some n \<Rightarrow> n)
         \<and> modTime (fst (Stat d st now key)) = (case LastModified resp of None \<Rightarrow> now | Some t \<Rightarrow> t)"
  using assms by (simp add: Stat_def Let_def)

theorem Stat_existing_object_witness:
  "snd (Stat (memDriver featureList False memS3)
          [\<lparr>Key = ''reports/a.txt'', Size = 3, Modified = 10, Owner = None\<rparr>] 99 ''reports/a.txt'') = None
   \<and> isPrefix (fst (Stat (memDriver featureList False memS3)
          [\<lparr>Key = ''reports/a.txt'', Size = 3, Modified = 10, Owner = None\<rparr>] 99 ''reports/a.txt''))
   \<and> objSize (fst (Stat (memDriver featureList False memS3)
          [\<lparr>Key = ''reports/a.txt'', Size = 3, Modified = 10, Owner = None\<rparr>] 99 ''reports/a.txt'')) = 3
   \<and> modTime (fst (Stat (memDriver featureList False memS3)
          [\<lparr>Key = ''reports/a.txt'', Size = 3, Modified = 10, Owner = None\<rparr>] 99 ''reports/a.txt'')) = 10"
  using Stat_existing_object [of "memDriver featureList False memS3"
      "[\<lparr>Key = ''reports/a.txt'', Size = 3, Modified = 10, Owner = None\<rparr>]" "''reports/a.txt''"
      "\<lparr>ContentLength = Some 3, LastModified = Some 10\<rparr>" 99]
  by (simp add: bucketCheck_def memDriver_def memS3_def)

text \<open>
  Claim C5, as the code has it. \<open>DeleteDir\<close>, \<open>Rename\<close> and \<open>MakeDir\<close> fail with
  their fixed not-enabled error for every input and every flag set. \<open>PutFile\<close> in
  append mode fails for every input and every flag set and leaves the store as it
  is; its error is the not-enabled error only when the put bit is missing, the
  empty-data error for a nil reader, and otherwise the error that the backend does
  not support appending.
\<close>

theorem unsupported_operations:
  "DeleteDir d key = Some (notEnabled ''RMDIR'')
   \<and> Rename d oldKey newKey = Some (notEnabled ''MV'')
   \<and> MakeDir d key = Some (notEnabled ''MKDIR'')
   \<and> PutFile d st key data True =
        ((- 1, Some (if featureFlags d AND featurePut = 0 then notEnabled ''PUT''
                     else case data of None \<Rightarrow> EmptyData
                          | Some body \<Rightarrow> AppendUnsupported (fqdn d key))), st)"
  by (simp add: DeleteDir_def Rename_def MakeDir_def PutFile_def split: option.split)

theorem unsupported_operations_witness:
  "DeleteDir (memDriver 255 False memS3) ''dir'' = Some (notEnabled ''RMDIR'')
   \<and> Rename (memDriver 255 False memS3) ''a'' ''b'' = Some (notEnabled ''MV'')
   \<and> MakeDir (memDriver 255 False memS3) ''dir'' = Some (notEnabled ''MKDIR'')
   \<and> PutFile (memDriver 255 False memS3) [] ''k'' (Some ''abc'') True =
        ((- 1, Some (AppendUnsupported (fqdn (memDriver 255 False memS3) ''k''))), [])
   \<and> PutFile (memDriver 0 False memS3) [] ''k'' (Some ''abc'') True =
        ((- 1, Some (notEnabled ''PUT'')), [])"
  using unsupported_operations [of "memDriver 255 False memS3" "''dir''" "''a''" "''b''" "[]" "Some ''abc''"]
    unsupported_operations [of "memDriver 255 False memS3" "''k''" "''a''" "''b''" "[]" "Some ''abc''"]
    unsupported_operations [of "memDriver 0 False memS3" "''k''" "''a''" "''b''" "[]" "Some ''abc''"]
  by (simp add: memDriver_def featurePut_def)

text \<open>
  The claim as stated fails: with the put bit set and a reader given, the error of an
  append-mode put is not the not-enabled error.
\<close>

theorem PutFile_append_counterexample:
  "snd (fst (PutFile (memDriver featurePut False memS3) [] ''k'' (Some ''abc'') True))
     = Some (AppendUnsupported ''https://bucket.example.com/k'')
   \<and> snd (fst (PutFile (memDriver featurePut False memS3) [] ''k'' (Some ''abc'') True))
     \<noteq> Some (notEnabled ''PUT'')"
  by (simp add: PutFile_def memDriver_def featurePut_def fqdn_def URL_String_def EscapedPath_def
      Clean_def Contains_def unreserved_def isAlnum_def notEnabled_def)

text \<open>
  Claim C10. If the head-object call of the existence probe fails, with whatever
  error, \<open>objectExists\<close> is false; and a put that is enabled, has a reader and is not
  in append mode then goes on to the upload, with overwrite protection on as with it
  off: the store after the call is the store after the upload.
\<close>

theorem objectExists_fails_open:
  assumes "HeadObject (s3 d) st (bucketName d) key = Inl err"
    and "featureFlags d AND featurePut \<noteq> 0"
  shows "objectExists d st key = False
         \<and> PutFile d st key (Some body) False =
             (case Upload (uploader d) st (bucketName d) key body of
                (Some e, st') \<Rightarrow> ((- 1, Some (PutFailed (fqdn d key))), st')
              | (None, st') \<Rightarrow> (objectSize d st' key, st'))
         \<and> snd (PutFile d st key (Some body) False)
             = snd (Upload (uploader d) st (bucketName d) key body)"
proof -
  have ex: "objectExists d st key = False"
    using assms(1) by (simp add: objectExists_def)
  have put: "PutFile d st key (Some body) False =
             (case Upload (uploader d) st (bucketName d) key body of
                (Some e, st') \<Rightarrow> ((- 1, Some (PutFailed (fqdn d key))), st')
              | (None, st') \<Rightarrow> (objectSize d st' key, st'))"
    using assms(2) ex by (simp add: PutFile_def)
  have "snd (PutFile d st key (Some body) False)
          = snd (Upload (uploader d) st (bucketName d) key body)"
    unfolding put by (cases "Upload (uploader d) st (bucketName d) key body")
      (simp split: option.split)
  with ex put show ?thesis by simp
qed

theorem objectExists_fails_open_witness:
  "objectExists (memDriver featurePut True (faultyS3 (AwsErr ''RequestError'' ''connection refused'')))
      [\<lparr>Key = ''k'', Size = 7, Modified = 10, Owner = None\<rparr>] ''k'' = False
   \<and> snd (PutFile (memDriver featurePut True (faultyS3 (AwsErr ''RequestError'' ''connection refused'')))
      [\<lparr>Key = ''k'', Size = 7, Modified = 10, Owner = None\<rparr>] ''k'' (Some ''abc'') False)
      = [\<lparr>Key = ''k'', Size = 3, Modified = 0, Owner = None\<rparr>]"
  using objectExists_fails_open [of
      "memDriver featurePut True (faultyS3 (AwsErr ''RequestError'' ''connection refused''))"
      "[\<lparr>Key = ''k'', Size = 7, Modified = 10, Owner = None\<rparr>]" "''k''"
      "AwsErr ''RequestError'' ''connection refused''" "''abc''"]
  by (simp add: memDriver_def faultyS3_def memS3_def memUploader_def featurePut_def)

text \<open>
  Claim C3 (the code departs from it). \<open>ChangeDir\<close> returns no error for every
  path, with no test of the path. The path is assigned to the working path of the
  method's own copy of the driver, so the driver of the connection keeps the working
  path it had, and a later \<open>fqdn\<close> is built from that old working path: the path
  given to \<open>ChangeDir\<close> is not recorded.
\<close>

theorem ChangeDir_not_recorded:
  "snd (ChangeDir d path) = None
   \<and> cwd (fst (ChangeDir d path)) = cwd d
   \<and> fqdn (fst (ChangeDir d path)) key = fqdn d key"
  by (simp add: ChangeDir_def)

theorem ChangeDir_not_recorded_witness:
  "snd (ChangeDir (memDriver 255 False memS3) ''/incoming'') = None
   \<and> cwd (fst (ChangeDir (memDriver 255 False memS3) ''/incoming'')) = []
   \<and> fqdn (fst (ChangeDir (memDriver 255 False memS3) ''/incoming'')) ''a.txt''
       = ''https://bucket.example.com/a.txt''"
proof -
  have "fqdn (memDriver 255 False memS3) ''a.txt'' = ''https://bucket.example.com/a.txt''"
    by (simp add: memDriver_def fqdn_def URL_String_def EscapedPath_def Clean_def Contains_def
        unreserved_def isAlnum_def)
  moreover have "cwd (memDriver 255 False memS3) = []"
    by (simp add: memDriver_def)
  ultimately show ?thesis
    using ChangeDir_not_recorded [of "memDriver 255 False memS3" "''/incoming''" "''a.txt''"]
    by simp
qed

text \<open>
  What a recorded working path would give: with the working path \<open>/incoming\<close> the
  identifier of \<open>a.txt\<close> is the one under \<open>/incoming\<close>.
\<close>

lemma fqdn_with_cwd:
  "fqdn ((memDriver 255 False memS3)\<lparr>cwd := ''/incoming''\<rparr>) ''a.txt''
     = ''https://bucket.example.com/incoming/a.txt''"
  by (simp add: memDriver_def fqdn_def URL_String_def EscapedPath_def Clean_def Contains_def
      unreserved_def isAlnum_def)

text \<open>
  Claim C2 (the code departs from it). A listing prefix the protocol engine gives
  without a separator at its end, \<open>/reports\<close>, leaves relative names that begin with
  the separator. The test for a further separator is made on the name without that
  first separator, but the name of the pseudo-directory is the first piece of the name
  with it, the empty string: the two children \<open>sub\<close> and \<open>other\<close> of the prefix are
  emitted as one pseudo-directory with the empty name.
\<close>

theorem ListDir_nested_prefix:
  "ListDir (memDriver featureList False memS3)
     [\<lparr>Key = ''reports/sub/b.txt'', Size = 4, Modified = 11, Owner = None\<rparr>,
      \<lparr>Key = ''reports/other/c.txt'', Size = 5, Modified = 12, Owner = None\<rparr>]
     ''/reports''
   = ([\<lparr>name = [], objSize = 4, owner = [], modTime = 11, isPrefix = True\<rparr>], None)"
  by (simp add: ListDir_def memDriver_def memS3_def featureList_def bucketCheck_def
      TrimPrefix_def HasPrefix_def Contains_def)

text \<open>
  The example of the specification, a prefix that ends with the separator: exactly two
  entries, \<open>a.txt\<close> as a file and \<open>sub\<close> once as a pseudo-directory.
\<close>

lemma ListDir_reports_example:
  "ListDir (memDriver featureList False memS3)
     [\<lparr>Key = ''reports/a.txt'', Size = 3, Modified = 10, Owner = None\<rparr>,
      \<lparr>Key = ''reports/sub/b.txt'', Size = 4, Modified = 11, Owner = None\<rparr>,
      \<lparr>Key = ''reports/sub/c.txt'', Size = 5, Modified = 12, Owner = None\<rparr>,
      \<lparr>Key = ''other/x.txt'', Size = 6, Modified = 13, Owner = None\<rparr>]
     ''reports/''
   = ([\<lparr>name = ''a.txt'', objSize = 3, owner = [], modTime = 10, isPrefix = False\<rparr>,
       \<lparr>name = ''sub'', objSize = 4, owner = [], modTime = 11, isPrefix = True\<rparr>], None)"
  by (simp add: ListDir_def memDriver_def memS3_def featureList_def bucketCheck_def
      TrimPrefix_def HasPrefix_def Contains_def)

text \<open>
  The set of seen names does its work for every prefix and every listing: no name of a
  pseudo-directory is emitted twice in one call.
\<close>

lemma listLoop_folders:
  "distinct (map name (filter isPrefix (listLoop prefixKey objects folders)))
   \<and> (\<forall>e \<in> set (listLoop prefixKey objects folders). isPrefix e \<longrightarrow> name e \<notin> folders)"
proof (induction objects arbitrary: folders)
  case Nil
  then show ?case by simp
next
  case (Cons object rest)
  show ?case
    using Cons.IH [of folders] Cons.IH [of "insert (TrimPrefix (hd (Split (if prefixKey \<noteq> [] then TrimPrefix (Key object) prefixKey else Key object) CHR ''/'')) ''/'') folders"]
    by (auto simp add: Let_def)
qed

lemma ListDir_folders_distinct:
  "distinct (map name (filter isPrefix (fst (ListDir d st key))))"
  using listLoop_folders [of "TrimPrefix key ''/''" _ "{}"]
  by (simp add: ListDir_def split: option.split sum.split)

section \<open>Properties of the signer\<close>

lemma Index_nonneg: "- 1 \<le> Index s c"
  by (induction s) (auto simp add: Let_def)

lemma Index_notin: "Index s c = - 1 \<longleftrightarrow> c \<notin> set s"
proof (induction s)
  case Nil
  then show ?case by simp
next
  case (Cons x xs)
  then show ?case using Index_nonneg [of xs c] by (auto simp add: Let_def)
qed

lemma Index_takeWhile: "c \<in> set s \<Longrightarrow> nat (Index s c) = length (takeWhile (\<lambda>x. x \<noteq> c) s)"
proof (induction s)
  case Nil
  then show ?case by simp
next
  case (Cons x xs)
  show ?case
  proof (cases "x = c")
    case True
    then show ?thesis by simp
  next
    case False
    with Cons.prems have in_xs: "c \<in> set xs" by simp
    then have "Index xs c \<noteq> - 1" by (simp add: Index_notin)
    with Index_nonneg [of xs c] have "0 \<le> Index xs c" by linarith
    with Cons.IH [OF in_xs] False \<open>Index xs c \<noteq> - 1\<close> show ?thesis
      by (simp add: Let_def nat_add_distrib)
  qed
qed

lemma hd_SplitN2: "hd (SplitN2 s c) = takeWhile (\<lambda>x. x \<noteq> c) s"
proof (cases "c \<in> set s")
  case True
  then have "Index s c \<noteq> - 1" by (simp add: Index_notin)
  moreover have "take (length (takeWhile (\<lambda>x. x \<noteq> c) s)) s = takeWhile (\<lambda>x. x \<noteq> c) s"
    by (metis takeWhile_eq_take)
  ultimately show ?thesis
    using Index_takeWhile [OF True] by (simp add: SplitN2_def Let_def)
next
  case False
  then have "Index s c = - 1" by (simp add: Index_notin)
  then have "hd (SplitN2 s c) = s" by (simp add: SplitN2_def)
  moreover have "takeWhile (\<lambda>x. x \<noteq> c) s = s"
    using False by (auto simp add: takeWhile_eq_all_conv)
  ultimately show ?thesis by (simp only:)
qed

lemma EscapePath_Nil: "EscapePath uri False = [] \<longleftrightarrow> uri = []"
  by (cases uri) (auto simp add: EscapePath_def pctEncode_def)

text \<open>
  Claim C7, as the code has it. When path-style addressing is not in effect, the
  canonical path is \<open>/\<close>, the first label of the host (the bucket) and the path of
  the request, not escaped. When path-style addressing is in effect, the canonical
  path is the escaped path of the request alone, and \<open>/\<close> when that is empty. The
  path of the request is the path of its URL when the URL is not opaque.
\<close>

theorem signPath_spec:
  "signPath False u uri = ''/'' @ takeWhile (\<lambda>c. c \<noteq> CHR ''.'') (Host u) @ uri
   \<and> signPath True u uri = (if uri = [] then ''/'' else EscapePath uri False)
   \<and> (Opaque u = [] \<longrightarrow> signURI u = Inr (Path u))"
  by (simp add: signPath_def signURI_def hd_SplitN2 EscapePath_Nil)

theorem signPath_spec_witness:
  "signPath False \<lparr>Scheme = ''https'', Opaque = [], Host = ''bucket.s3.example.com'', Path = ''/key.txt''\<rparr>
      ''/key.txt'' = ''/bucket/key.txt''
   \<and> signPath True \<lparr>Scheme = ''https'', Opaque = [], Host = ''s3.example.com'', Path = ''/bucket/key.txt''\<rparr>
      ''/bucket/key.txt'' = ''/bucket/key.txt''
   \<and> signPath True \<lparr>Scheme = ''https'', Opaque = [], Host = ''s3.example.com'', Path = []\<rparr> [] = ''/''
   \<and> signURI \<lparr>Scheme = ''https'', Opaque = [], Host = ''bucket.s3.example.com'', Path = ''/key.txt''\<rparr>
      = Inr ''/key.txt''"
  using signPath_spec [of "\<lparr>Scheme = ''https'', Opaque = [], Host = ''bucket.s3.example.com'', Path = ''/key.txt''\<rparr>" "''/key.txt''"]
    signPath_spec [of "\<lparr>Scheme = ''https'', Opaque = [], Host = ''s3.example.com'', Path = ''/bucket/key.txt''\<rparr>" "''/bucket/key.txt''"]
    signPath_spec [of "\<lparr>Scheme = ''https'', Opaque = [], Host = ''s3.example.com'', Path = []\<rparr>" "[]"]
  by (simp add: EscapePath_def unreserved_def isAlnum_def)

text \<open>
  The claim as stated fails: with the bucket in the host (no path-style addressing)
  the canonical path of the request for \<open>/key.txt\<close> is not that path alone, the
  bucket is put before it.
\<close>

theorem signPath_counterexample:
  "signPath False \<lparr>Scheme = ''https'', Opaque = [], Host = ''bucket.s3.example.com'', Path = ''/key.txt''\<rparr>
      ''/key.txt'' = ''/bucket/key.txt''
   \<and> signPath False \<lparr>Scheme = ''https'', Opaque = [], Host = ''bucket.s3.example.com'', Path = ''/key.txt''\<rparr>
      ''/key.txt'' \<noteq> ''/key.txt''"
  by (simp add: signPath_def SplitN2_def Let_def)

lemma upperhex_not_plus: "upperhex n \<noteq> CHR ''+''"
proof -
  have "n mod 16 < length ''0123456789ABCDEF''" by simp
  then have "upperhex n \<in> set ''0123456789ABCDEF''"
    unfolding upperhex_def by (rule nth_mem)
  then show ?thesis by auto
qed

lemma plus_reserved: "\<not> unreserved CHR ''+''"
  by (simp add: unreserved_def isAlnum_def)

lemma pctEncode_space: "pctEncode CHR '' '' = ''%20''"
  by (simp add: pctEncode_def upperhex_def)

lemma ReplaceAll_concat:
  "ReplaceAll (concat (map f s)) c r = concat (map (\<lambda>x. ReplaceAll (f x) c r) s)"
  by (induction s) (simp_all add: ReplaceAll_def)

text \<open>The two library calls together are the encoding with \<open>%20\<close> for the space.\<close>

lemma QueryEscape_ReplaceAll:
  "ReplaceAll (QueryEscape s) CHR ''+'' ''%20'' = encodeComponent s"
proof -
  have "ReplaceAll (if unreserved c then [c] else if c = CHR '' '' then ''+'' else pctEncode c)
          CHR ''+'' ''%20''
        = (if unreserved c then [c] else pctEncode c)" for c
  proof (cases "unreserved c")
    case True
    then have "c \<noteq> CHR ''+''" using plus_reserved by auto
    with True show ?thesis by (simp add: ReplaceAll_def)
  next
    case False
    show ?thesis
    proof (cases "c = CHR '' ''")
      case True
      with False show ?thesis by (simp add: ReplaceAll_def pctEncode_space)
    next
      case space: False
      with False show ?thesis
        by (simp add: ReplaceAll_def pctEncode_def upperhex_not_plus)
    qed
  qed
  then show ?thesis
    by (simp add: QueryEscape_def encodeComponent_def ReplaceAll_concat)
qed

lemma queryKeysAndValues_map:
  "queryKeysAndValues keys q acc =
     acc @ map (\<lambda>k. encodeComponent k
                  @ (if encodeComponent (Values_Get q k) = [] then []
                     else ''='' @ encodeComponent (Values_Get q k)))
             (filter (\<lambda>k. q k \<noteq> None) keys)"
  by (induction keys arbitrary: acc) (auto simp add: QueryEscape_ReplaceAll Let_def)

text \<open>
  Claim C8, as the code has it. The whitelist has sixteen names, \<open>delete\<close> the second
  of them. The canonical query has one part for each name of the whitelist that is
  present in the query of the request, in the order of the whitelist: the encoded name,
  followed by \<open>=\<close> and the encoded first value when that is not empty; the parts are
  joined with \<open>&\<close> and put after the path behind a \<open>?\<close> only when there is one. Two
  queries that agree on the names of the whitelist give the same result.
\<close>

theorem signQuery_spec:
  "subresources =
     [''acl'', ''delete'', ''lifecycle'', ''location'', ''logging'', ''notification'',
      ''partNumber'', ''policy'', ''requestPayment'', ''torrent'', ''uploadId'', ''uploads'',
      ''versionId'', ''versioning'', ''versions'', ''website'']
   \<and> signQuery q path =
       (let parts = map (\<lambda>k. encodeComponent k
                          @ (if encodeComponent (Values_Get q k) = [] then []
                             else ''='' @ encodeComponent (Values_Get q k)))
                      (filter (\<lambda>k. q k \<noteq> None) subresources);
            query = Join parts ''&''
        in if query = [] then path else path @ ''?'' @ query)
   \<and> ((\<forall>k \<in> set subresources. q k = q' k) \<longrightarrow> signQuery q path = signQuery q' path)"
proof (intro conjI impI)
  show "subresources =
     [''acl'', ''delete'', ''lifecycle'', ''location'', ''logging'', ''notification'',
      ''partNumber'', ''policy'', ''requestPayment'', ''torrent'', ''uploadId'', ''uploads'',
      ''versionId'', ''versioning'', ''versions'', ''website'']"
    by (simp add: subresources_def)
next
  show "signQuery q path =
       (let parts = map (\<lambda>k. encodeComponent k
                          @ (if encodeComponent (Values_Get q k) = [] then []
                             else ''='' @ encodeComponent (Values_Get q k)))
                      (filter (\<lambda>k. q k \<noteq> None) subresources);
            query = Join parts ''&''
        in if query = [] then path else path @ ''?'' @ query)"
    by (simp add: signQuery_def queryKeysAndValues_map Let_def)
next
  assume agree: "\<forall>k \<in> set subresources. q k = q' k"
  have "queryKeysAndValues keys q [] = queryKeysAndValues keys q' []"
    if "\<forall>k \<in> set keys. q k = q' k" for keys
  proof -
    have f: "filter (\<lambda>k. q k \<noteq> None) keys = filter (\<lambda>k. q' k \<noteq> None) keys"
      using that by (intro filter_cong) auto
    have "map (\<lambda>k. encodeComponent k
                  @ (if encodeComponent (Values_Get q k) = [] then []
                     else ''='' @ encodeComponent (Values_Get q k)))
             (filter (\<lambda>k. q' k \<noteq> None) keys)
          = map (\<lambda>k. encodeComponent k
                  @ (if encodeComponent (Values_Get q' k) = [] then []
                     else ''='' @ encodeComponent (Values_Get q' k)))
             (filter (\<lambda>k. q' k \<noteq> None) keys)"
      using that by (intro map_cong) (auto simp add: Values_Get_def)
    with f show ?thesis by (simp add: queryKeysAndValues_map)
  qed
  from this [OF agree] show "signQuery q path = signQuery q' path"
    by (simp add: signQuery_def)
qed

theorem signQuery_spec_witness:
  "signQuery [''uploadId'' \<mapsto> [''a b''], ''acl'' \<mapsto> [[]], ''foo'' \<mapsto> [''x'']] ''/bucket/key''
     = ''/bucket/key?acl&uploadId=a%20b''
   \<and> signQuery [''uploadId'' \<mapsto> [''a b''], ''acl'' \<mapsto> [[]], ''foo'' \<mapsto> [''x'']] ''/bucket/key''
     = signQuery [''uploadId'' \<mapsto> [''a b''], ''acl'' \<mapsto> [[]]] ''/bucket/key''
   \<and> signQuery Map.empty ''/bucket/key'' = ''/bucket/key''"
proof -
  let ?q = "[''uploadId'' \<mapsto> [''a b''], ''acl'' \<mapsto> [[]], ''foo'' \<mapsto> [''x'']]"
  let ?q' = "[''uploadId'' \<mapsto> [''a b''], ''acl'' \<mapsto> [[]]]"
  have e: "encodeComponent ''acl'' = ''acl''" "encodeComponent ''uploadId'' = ''uploadId''"
    "encodeComponent ''a b'' = ''a%20b''" "encodeComponent [] = []"
    by (simp_all add: encodeComponent_def unreserved_def isAlnum_def pctEncode_def upperhex_def)
  have agree: "\<forall>k \<in> set subresources. ?q k = ?q' k"
    by (simp add: subresources_def)
  have "signQuery ?q ''/bucket/key'' = ''/bucket/key?acl&uploadId=a%20b''"
    using signQuery_spec [of ?q "''/bucket/key''" ?q']
    by (simp add: subresources_def e Values_Get_def)
  moreover have "signQuery ?q ''/bucket/key'' = signQuery ?q' ''/bucket/key''"
    using signQuery_spec [of ?q "''/bucket/key''" ?q'] agree by blast
  moreover have "signQuery Map.empty ''/bucket/key'' = ''/bucket/key''"
    using signQuery_spec [of "Map.empty" "''/bucket/key''" "Map.empty"]
    by (simp add: subresources_def)
  ultimately show ?thesis by blast
qed

text \<open>
  The claim as stated fails: \<open>delete\<close> is not among the fifteen names of the claim,
  and a request whose query has it gets it into the canonical string.
\<close>

theorem signQuery_delete_counterexample:
  "''delete'' \<notin> set claimedSubresources
   \<and> signQuery [''delete'' \<mapsto> [[]]] ''/bucket/key'' = ''/bucket/key?delete''
   \<and> signQuery Map.empty ''/bucket/key'' = ''/bucket/key''"
  by (simp add: claimedSubresources_def signQuery_def subresources_def Values_Get_def
      QueryEscape_def ReplaceAll_def unreserved_def isAlnum_def)

lemma validHeaderFieldByte_isASCII: "validHeaderFieldByte c \<Longrightarrow> isASCII c"
  by (auto simp add: validHeaderFieldByte_def isAlnum_def isASCII_def Let_def)

lemma ToLower_field_name:
  assumes "list_all validHeaderFieldByte k"
  shows "ToLower mapLower k = asciiLower k"
proof -
  from assms have "list_all isASCII k"
    by (simp add: list_all_iff validHeaderFieldByte_isASCII)
  then show ?thesis by (simp add: ToLower_def)
qed

lemma vendorHeaders_filter:
  assumes "list_all (list_all validHeaderFieldByte) ks"
  shows "vendorHeaders mapLower ks acc
           = acc @ filter (\<lambda>k. HasPrefix k ''x-amz-'') (map asciiLower ks)"
  using assms
  by (induction ks arbitrary: acc) (simp_all add: Let_def ToLower_field_name)

lemma headerLines_map:
  "headerLines h ks tmp =
     tmp @ map (\<lambda>k. k @ '':'' @ Join (lookupValues h (CanonicalHeaderKey k)) '','') ks"
  by (induction ks arbitrary: tmp) (simp_all add: Let_def)

lemma map_insort_key: "map f (insort_key f x xs) = insort (f x) (map f xs)"
  by (induction xs) simp_all

lemma sort_map_key: "sort (map f xs) = map f (sort_key f xs)"
  by (induction xs) (simp_all add: map_insort_key)

lemma lowerChar_upper:
  assumes "65 \<le> (of_char c :: nat)" and "(of_char c :: nat) \<le> 90"
  shows "(of_char (lowerChar c) :: nat) = of_char c + 32"
  using assms by (simp add: lowerChar_def)

lemma lowerChar_other:
  assumes "\<not> (65 \<le> (of_char c :: nat) \<and> (of_char c :: nat) \<le> 90)"
  shows "lowerChar c = c"
  using assms by (auto simp add: lowerChar_def)

lemma lowerChar_idem: "lowerChar (lowerChar c) = lowerChar c"
proof (cases "65 \<le> (of_char c :: nat) \<and> (of_char c :: nat) \<le> 90")
  case True
  then have "(of_char (lowerChar c) :: nat) = of_char c + 32" by (simp add: lowerChar_upper)
  with True have "\<not> (65 \<le> (of_char (lowerChar c) :: nat) \<and> (of_char (lowerChar c) :: nat) \<le> 90)"
    by simp
  then show ?thesis by (rule lowerChar_other)
next
  case False
  from lowerChar_other [OF False] show ?thesis by simp
qed

lemma upperChar_lowerChar: "upperChar (lowerChar c) = upperChar c"
proof (cases "65 \<le> (of_char c :: nat) \<and> (of_char c :: nat) \<le> 90")
  case True
  then have low: "(of_char (lowerChar c) :: nat) = of_char c + 32" by (simp add: lowerChar_upper)
  with True have "upperChar (lowerChar c) = char_of (of_char c :: nat)"
    by (simp add: upperChar_def)
  moreover from True have "upperChar c = c" by (simp add: upperChar_def)
  ultimately show ?thesis by simp
next
  case False
  from lowerChar_other [OF False] show ?thesis by simp
qed

lemma isAlnum_lowerChar: "isAlnum (lowerChar c) = isAlnum c"
proof (cases "65 \<le> (of_char c :: nat) \<and> (of_char c :: nat) \<le> 90")
  case True
  then have "(of_char (lowerChar c) :: nat) = of_char c + 32" by (simp add: lowerChar_upper)
  with True show ?thesis by (simp add: isAlnum_def Let_def)
next
  case False
  from lowerChar_other [OF False] show ?thesis by simp
qed

lemma lowerChar_fixes:
  assumes "\<not> isAlnum x"
  shows "lowerChar c = x \<longleftrightarrow> c = x"
proof
  assume eq: "lowerChar c = x"
  show "c = x"
  proof (cases "65 \<le> (of_char c :: nat) \<and> (of_char c :: nat) \<le> 90")
    case True
    then have "isAlnum c" by (simp add: isAlnum_def Let_def)
    then have "isAlnum (lowerChar c)" by (simp add: isAlnum_lowerChar)
    with eq assms show ?thesis by simp
  next
    case False
    from lowerChar_other [OF False] eq show ?thesis by simp
  qed
next
  assume "c = x"
  moreover from assms have "\<not> (65 \<le> (of_char x :: nat) \<and> (of_char x :: nat) \<le> 90)"
    by (auto simp add: isAlnum_def Let_def)
  ultimately show "lowerChar c = x" using lowerChar_other [of x] by simp
qed

lemma punctuation_not_alnum:
  "\<not> isAlnum CHR ''!''" "\<not> isAlnum CHR ''#''" "\<not> isAlnum CHR ''$''" "\<not> isAlnum CHR ''%''"
  "\<not> isAlnum CHR ''&''" "\<not> isAlnum CHR 0x27" "\<not> isAlnum CHR ''*''" "\<not> isAlnum CHR ''+''"
  "\<not> isAlnum CHR ''-''" "\<not> isAlnum CHR ''.''" "\<not> isAlnum CHR ''^''" "\<not> isAlnum CHR ''_''"
  "\<not> isAlnum CHR 0x60" "\<not> isAlnum CHR ''|''" "\<not> isAlnum CHR ''~''"
  by (simp_all add: isAlnum_def)

lemma validHeaderFieldByte_lowerChar: "validHeaderFieldByte (lowerChar c) = validHeaderFieldByte c"
  by (simp add: validHeaderFieldByte_def isAlnum_lowerChar lowerChar_fixes punctuation_not_alnum)

lemma canonicalLoop_asciiLower: "canonicalLoop upper (asciiLower s) = canonicalLoop upper s"
proof (induction s arbitrary: upper)
  case Nil
  then show ?case by (simp add: asciiLower_def)
next
  case (Cons c cs)
  then show ?case
    by (simp add: asciiLower_def Let_def upperChar_lowerChar lowerChar_idem)
qed

lemma CanonicalHeaderKey_asciiLower:
  assumes "list_all validHeaderFieldByte s"
  shows "CanonicalHeaderKey (asciiLower s) = CanonicalHeaderKey s"
proof -
  have "list_all validHeaderFieldByte (asciiLower s) = list_all validHeaderFieldByte s"
    by (induction s) (simp_all add: asciiLower_def validHeaderFieldByte_lowerChar)
  with assms show ?thesis
    by (simp add: CanonicalHeaderKey_def canonicalLoop_asciiLower)
qed

lemma wellFormedHeader_update:
  assumes "wellFormedHeader h" and "list_all validHeaderFieldByte k" and "CanonicalHeaderKey k = k"
  shows "wellFormedHeader (AList.update k v h)"
  using assms by (simp add: wellFormedHeader_def distinct_update update_keys)

lemma wellFormedHeader_delete:
  assumes "wellFormedHeader h"
  shows "wellFormedHeader (AList.delete k h)"
proof -
  have "distinct (map fst (AList.delete k h))"
    using assms by (simp add: wellFormedHeader_def distinct_delete)
  moreover have "list_all (\<lambda>k. list_all validHeaderFieldByte k \<and> CanonicalHeaderKey k = k)
                   (map fst (AList.delete k h))"
    using assms by (auto simp add: wellFormedHeader_def delete_keys list_all_iff)
  ultimately show ?thesis by (simp add: wellFormedHeader_def)
qed

lemma canonical_vendor_keys:
  "CanonicalHeaderKey ''x-amz-date'' = ''X-Amz-Date''"
  "CanonicalHeaderKey ''x-amz-security-token'' = ''X-Amz-Security-Token''"
  "CanonicalHeaderKey ''Authorization'' = ''Authorization''"
  "CanonicalHeaderKey ''X-Amz-Date'' = ''X-Amz-Date''"
  "CanonicalHeaderKey ''X-Amz-Security-Token'' = ''X-Amz-Security-Token''"
  "list_all validHeaderFieldByte ''X-Amz-Date''"
  "list_all validHeaderFieldByte ''X-Amz-Security-Token''"
  by (simp_all add: CanonicalHeaderKey_def validHeaderFieldByte_def isAlnum_def upperChar_def
      lowerChar_def char_of_def bit_Suc_0_iff Let_def)

lemma wellFormedHeader_signingHeader:
  assumes "wellFormedHeader h"
  shows "wellFormedHeader (signingHeader h date cred)"
proof -
  have date: "wellFormedHeader (Header_Set h ''x-amz-date'' date)"
    unfolding Header_Set_def canonical_vendor_keys
    using assms canonical_vendor_keys(6) canonical_vendor_keys(4)
    by (rule wellFormedHeader_update)
  have "wellFormedHeader (Header_Set (Header_Set h ''x-amz-date'' date)
          ''x-amz-security-token'' (SessionToken cred))"
    unfolding Header_Set_def [of _ "''x-amz-security-token''"] canonical_vendor_keys
    using date canonical_vendor_keys(7) canonical_vendor_keys(5)
    by (rule wellFormedHeader_update)
  with date show ?thesis
    by (simp add: signingHeader_def Header_Del_def wellFormedHeader_delete)
qed

lemma wellFormedHeader_lookup:
  assumes "wellFormedHeader h" and "(k, vs) \<in> set h"
  shows "lookupValues h (CanonicalHeaderKey (asciiLower k)) = vs"
proof -
  from assms have valid: "list_all validHeaderFieldByte k" and canon: "CanonicalHeaderKey k = k"
    by (auto simp add: wellFormedHeader_def list_all_iff)
  from assms have "map_of h k = Some vs"
    by (simp add: wellFormedHeader_def)
  with CanonicalHeaderKey_asciiLower [OF valid] canon show ?thesis
    by (simp add: lookupValues_def)
qed

text \<open>
  The two loops and the sort of \<open>Sign\<close> write the vendor lines of the specification.
\<close>

lemma headerLines_vendorLines:
  assumes "wellFormedHeader h"
  shows "headerLines h (sort (vendorHeaders mapLower (map fst h) [])) tmp = tmp @ vendorLines h"
proof -
  let ?g = "\<lambda>(k, vs). asciiLower k" 
  let ?Q = "\<lambda>(k, vs). HasPrefix (asciiLower k) ''x-amz-''"
  let ?ys = "sort_key ?g (filter ?Q h)"
  have "list_all (list_all validHeaderFieldByte) (map fst h)"
    using assms by (simp add: wellFormedHeader_def list_all_iff)
  then have names: "vendorHeaders mapLower (map fst h) [] = map ?g (filter ?Q h)"
    by (simp add: vendorHeaders_filter filter_map comp_def split_def)
  have sorted: "sort (map ?g (filter ?Q h)) = map ?g ?ys"
    by (rule sort_map_key)
  have "map (\<lambda>k. k @ '':'' @ Join (lookupValues h (CanonicalHeaderKey k)) '','') (map ?g ?ys)
        = map (\<lambda>(k, vs). asciiLower k @ '':'' @ Join vs '','') ?ys"
  proof -
    have "(asciiLower k) @ '':'' @ Join (lookupValues h (CanonicalHeaderKey (asciiLower k))) '',''
          = asciiLower k @ '':'' @ Join vs '',''" if "(k, vs) \<in> set ?ys" for k vs
    proof -
      from that have "(k, vs) \<in> set h" by simp
      with assms show ?thesis by (simp add: wellFormedHeader_lookup)
    qed
    then show ?thesis by (auto simp add: case_prod_beta)
  qed
  with names sorted show ?thesis
    by (simp add: headerLines_map vendorLines_def)
qed

lemma Header_Get_Set: "Header_Get (Header_Set h key val) key = val"
  by (simp add: Header_Get_def Header_Set_def lookupValues_def update_conv')

text \<open>
  What \<open>Sign\<close> computes, in closed form: the error, the signed string, the signature
  and the authorization header.
\<close>

lemma Sign_closed_form:
  assumes "Credentials v2 = Inr cred"
    and "signURI (ReqURL (Request v2)) = Inr uri"
    and "wellFormedHeader (Header (Request v2))"
  shows "fst (Sign lib v2) = None
    \<and> stringToSign (snd (Sign lib v2)) =
        Join ([Method (Request v2),
               Header_Get (Header (Request v2)) ''Content-MD5'',
               Header_Get (Header (Request v2)) ''Content-Type'',
               []]
              @ vendorLines (signingHeader (Header (Request v2)) (Format lib (Time v2)) cred)
              @ [signQuery (URLQuery (Request v2))
                   (signPath (pathStyle v2) (ReqURL (Request v2)) uri)])
          [CHR 0x0A]
    \<and> signature (snd (Sign lib v2)) =
        base64 lib (hmacSHA1 lib (SecretAccessKey cred) (stringToSign (snd (Sign lib v2))))
    \<and> Header_Get (Header (Request (snd (Sign lib v2)))) ''Authorization'' =
        ''AWS '' @ AccessKeyID cred @ '':'' @ signature (snd (Sign lib v2))
    \<and> (URLQuery (Request v2) = Map.empty \<longrightarrow>
         signQuery (URLQuery (Request v2)) (signPath (pathStyle v2) (ReqURL (Request v2)) uri)
           = signPath (pathStyle v2) (ReqURL (Request v2)) uri)"
proof -
  let ?h = "signingHeader (Header (Request v2)) (Format lib (Time v2)) cred"
  have wf: "wellFormedHeader ?h"
    using assms(3) by (rule wellFormedHeader_signingHeader)
  have lines: "headerLines ?h (sort (vendorHeaders (MapLower lib) (map fst ?h) [])) tmp
                 = tmp @ vendorLines ?h"
    for tmp using wf by (rule headerLines_vendorLines)
  have empty: "signQuery Map.empty p = p" for p
    by (simp add: signQuery_def subresources_def)
  show ?thesis
  proof (cases "SessionToken cred = []")
    case True
    then have h: "Header_Del (Header_Set (Header (Request v2)) ''x-amz-date''
                    (Format lib (Time v2))) ''Authorization'' = ?h"
      by (simp add: signingHeader_def)
    show ?thesis
      using assms(1,2) True lines
      by (simp add: Sign_def Let_def Header_Get_Set h empty)
  next
    case False
    then have h: "Header_Del (Header_Set (Header_Set (Header (Request v2)) ''x-amz-date''
                    (Format lib (Time v2))) ''x-amz-security-token'' (SessionToken cred))
                    ''Authorization'' = ?h"
      by (simp add: signingHeader_def)
    show ?thesis
      using assms(1,2) False lines
      by (simp add: Sign_def Let_def Header_Get_Set h empty)
  qed
qed

text \<open>
  Claim C6. For a request whose credentials are available, whose path is defined and
  whose header is well formed, \<open>Sign\<close> returns no error; the string it signs is the
  join by newlines of the method, the value of \<open>Content-MD5\<close>, the value of
  \<open>Content-Type\<close> (each empty when absent), an empty line, the vendor lines of the
  signed header and last the canonical path (with the query suffix, none for an empty
  query); the signature is the base64 encoding of the HMAC of that string under the
  secret key, and the \<open>Authorization\<close> header is \<open>AWS\<close>, a space, and
  \<open>access-key:signature\<close>. The result is a function of these inputs alone.
\<close>

theorem Sign_canonical_string:
  assumes "Credentials v2 = Inr cred"
    and "signURI (ReqURL (Request v2)) = Inr uri"
    and "wellFormedHeader (Header (Request v2))"
  shows "fst (Sign lib v2) = None
    \<and> stringToSign (snd (Sign lib v2)) =
        Join ([Method (Request v2),
               Header_Get (Header (Request v2)) ''Content-MD5'',
               Header_Get (Header (Request v2)) ''Content-Type'',
               []]
              @ vendorLines (signingHeader (Header (Request v2)) (Format lib (Time v2)) cred)
              @ [signQuery (URLQuery (Request v2))
                   (signPath (pathStyle v2) (ReqURL (Request v2)) uri)])
          [CHR 0x0A]
    \<and> signature (snd (Sign lib v2)) =
        base64 lib (hmacSHA1 lib (SecretAccessKey cred) (stringToSign (snd (Sign lib v2))))
    \<and> Header_Get (Header (Request (snd (Sign lib v2)))) ''Authorization'' =
        ''AWS '' @ AccessKeyID cred @ '':'' @ signature (snd (Sign lib v2))
    \<and> (URLQuery (Request v2) = Map.empty \<longrightarrow>
         signQuery (URLQuery (Request v2)) (signPath (pathStyle v2) (ReqURL (Request v2)) uri)
           = signPath (pathStyle v2) (ReqURL (Request v2)) uri)"
  using assms by (rule Sign_closed_form)

theorem Sign_canonical_string_witness:
  "fst (Sign tagLib exampleSigner) = None
   \<and> stringToSign (snd (Sign tagLib exampleSigner)) =
       Join [''GET'', [], ''text/plain'', [], ''x-amz-acl:private'',
             ''x-amz-date:Thu, 1 Jan 2026 00:00:00 +0000'', ''x-amz-meta-b:1,2'',
             ''/bucket/key.txt''] [CHR 0x0A]
   \<and> signature (snd (Sign tagLib exampleSigner)) =
       ''base64(hmac(SK,'' @ stringToSign (snd (Sign tagLib exampleSigner)) @ ''))''
   \<and> Header_Get (Header (Request (snd (Sign tagLib exampleSigner)))) ''Authorization'' =
       ''AWS AK:'' @ signature (snd (Sign tagLib exampleSigner))"
proof -
  let ?cred = "\<lparr>AccessKeyID = ''AK'', SecretAccessKey = ''SK'', SessionToken = []\<rparr>"
  let ?h = "[(''Content-Type'', [''text/plain'']), (''X-Amz-Meta-B'', [''1'', ''2'']),
             (''X-Amz-Acl'', [''private''])]"
  have cred: "Credentials exampleSigner = Inr ?cred"
    by (simp add: exampleSigner_def)
  have uri: "signURI (ReqURL (Request exampleSigner)) = Inr ''/key.txt''"
    by (simp add: exampleSigner_def signURI_def)
  have hdr: "Header (Request exampleSigner) = ?h"
    by (simp add: exampleSigner_def)
  have wf: "wellFormedHeader (Header (Request exampleSigner))"
    unfolding hdr by code_simp
  have lines: "vendorLines (signingHeader ?h ''Thu, 1 Jan 2026 00:00:00 +0000'' ?cred)
               = [''x-amz-acl:private'', ''x-amz-date:Thu, 1 Jan 2026 00:00:00 +0000'',
                  ''x-amz-meta-b:1,2'']"
    by code_simp
  have get: "Header_Get ?h ''Content-MD5'' = []" "Header_Get ?h ''Content-Type'' = ''text/plain''"
    by code_simp+
  have path: "signPath False \<lparr>Scheme = ''https'', Opaque = [], Host = ''bucket.s3.example.com'',
                Path = ''/key.txt''\<rparr> ''/key.txt'' = ''/bucket/key.txt''"
    by code_simp
  have rest: "Method (Request exampleSigner) = ''GET''" "URLQuery (Request exampleSigner) = Map.empty"
    "pathStyle exampleSigner = False" "Format tagLib (Time exampleSigner) = ''Thu, 1 Jan 2026 00:00:00 +0000''"
    "ReqURL (Request exampleSigner) = \<lparr>Scheme = ''https'', Opaque = [],
       Host = ''bucket.s3.example.com'', Path = ''/key.txt''\<rparr>"
    by (simp_all add: exampleSigner_def tagLib_def)
  from Sign_canonical_string [OF cred uri wf, of tagLib]
  show ?thesis
    by (simp add: hdr lines get path rest tagLib_def)
qed

text \<open>
  The order in which the loop visits the header does not matter: two well-formed
  headers with the same entries give the same vendor lines, the same signed header
  entries and the same values.
\<close>

lemma asciiLower_inj_canonical:
  assumes "list_all validHeaderFieldByte k" and "CanonicalHeaderKey k = k"
    and "list_all validHeaderFieldByte k'" and "CanonicalHeaderKey k' = k'"
    and "asciiLower k = asciiLower k'"
  shows "k = k'"
proof -
  have "k = CanonicalHeaderKey k" by (simp only: assms(2))
  also have "\<dots> = CanonicalHeaderKey (asciiLower k)"
    by (simp only: CanonicalHeaderKey_asciiLower [OF assms(1)])
  also have "\<dots> = CanonicalHeaderKey (asciiLower k')" by (simp only: assms(5))
  also have "\<dots> = CanonicalHeaderKey k'"
    by (simp only: CanonicalHeaderKey_asciiLower [OF assms(3)])
  also have "\<dots> = k'" by (simp only: assms(4))
  finally show ?thesis .
qed

lemma wellFormedHeader_inj:
  assumes "wellFormedHeader h"
  shows "inj_on (\<lambda>(k, vs). asciiLower k) (set h)"
proof (rule inj_onI)
  fix x y
  assume x: "x \<in> set h" and y: "y \<in> set h"
    and eq: "(case x of (k, vs) \<Rightarrow> asciiLower k) = (case y of (k, vs) \<Rightarrow> asciiLower k)"
  obtain k vs where xk: "x = (k, vs)" by (cases x)
  obtain k' vs' where yk: "y = (k', vs')" by (cases y)
  from assms x y xk yk have
    "list_all validHeaderFieldByte k" "CanonicalHeaderKey k = k"
    "list_all validHeaderFieldByte k'" "CanonicalHeaderKey k' = k'"
    by (auto simp add: wellFormedHeader_def list_all_iff)
  moreover from eq xk yk have "asciiLower k = asciiLower k'" by simp
  ultimately have "k = k'" by (rule asciiLower_inj_canonical)
  moreover from assms have "distinct (map fst h)" by (simp add: wellFormedHeader_def)
  ultimately have "vs = vs'"
    using x y xk yk by (metis eq_key_imp_eq_value)
  with \<open>k = k'\<close> xk yk show "x = y" by simp
qed

lemma vendorLines_order:
  assumes "wellFormedHeader h" and "wellFormedHeader h'" and "set h = set h'"
  shows "vendorLines h = vendorLines h'"
proof -
  let ?g = "\<lambda>(k, vs). asciiLower k"
  let ?Q = "\<lambda>(k, vs). HasPrefix (asciiLower k) ''x-amz-''"
  let ?xs = "sort_key ?g (filter ?Q h)"
  let ?ys = "sort_key ?g (filter ?Q h')"
  have inj: "inj_on ?g (set h)" using assms(1) by (rule wellFormedHeader_inj)
  have inj': "inj_on ?g (set h')" using assms(2) by (rule wellFormedHeader_inj)
  have dh: "distinct h" "distinct h'"
    using assms(1,2) by (auto simp add: wellFormedHeader_def distinct_map)
  have sets: "set ?xs = set ?ys" using assms(3) by simp
  have sub: "set ?xs \<subseteq> set h" "set ?ys \<subseteq> set h'" by auto
  have "distinct (map ?g ?xs)"
  proof -
    have "inj_on ?g (set ?xs)" using inj sub(1) by (rule inj_on_subset)
    moreover have "distinct ?xs" using dh(1) by simp
    ultimately show ?thesis by (simp only: distinct_map)
  qed
  moreover have "distinct (map ?g ?ys)"
  proof -
    have "inj_on ?g (set ?ys)" using inj' sub(2) by (rule inj_on_subset)
    moreover have "distinct ?ys" using dh(2) by simp
    ultimately show ?thesis by (simp only: distinct_map)
  qed
  moreover have "sorted (map ?g ?xs)" "sorted (map ?g ?ys)"
    by (rule sorted_sort_key)+
  moreover have "set (map ?g ?xs) = set (map ?g ?ys)"
    using sets by (simp only: set_map)
  ultimately have "map ?g ?xs = map ?g ?ys"
    by (metis sorted_distinct_set_unique)
  moreover have "inj_on ?g (set ?xs \<union> set ?ys)"
  proof -
    have "set ?xs \<union> set ?ys \<subseteq> set h" using sub(1) sets by blast
    with inj show ?thesis by (rule inj_on_subset)
  qed
  ultimately have "?xs = ?ys"
    by (simp add: inj_on_map_eq_map)
  then show ?thesis by (simp add: vendorLines_def)
qed

lemma wellFormedHeader_map_of:
  assumes "wellFormedHeader h" and "wellFormedHeader h'" and "set h = set h'"
  shows "map_of h = map_of h'"
  using assms by (simp add: wellFormedHeader_def map_of_inject_set)

lemma signingHeader_order:
  assumes "wellFormedHeader h" and "wellFormedHeader h'" and "set h = set h'"
  shows "set (signingHeader h date cred) = set (signingHeader h' date cred)"
proof -
  have "map_of (signingHeader h date cred) = map_of (signingHeader h' date cred)"
    using wellFormedHeader_map_of [OF assms]
    by (simp add: signingHeader_def Header_Set_def Header_Del_def update_conv' delete_conv')
  moreover have "distinct (map fst (signingHeader h date cred))"
    "distinct (map fst (signingHeader h' date cred))"
    using wellFormedHeader_signingHeader [OF assms(1), of date cred]
      wellFormedHeader_signingHeader [OF assms(2), of date cred]
    by (simp_all add: wellFormedHeader_def)
  ultimately show ?thesis by (simp add: map_of_inject_set)
qed

lemma Sign_order_independent:
  assumes "Credentials v2 = Inr cred"
    and "signURI (ReqURL (Request v2)) = Inr uri"
    and "wellFormedHeader (Header (Request v2))"
    and "wellFormedHeader h'"
    and "set h' = set (Header (Request v2))"
  shows "stringToSign (snd (Sign lib (v2\<lparr>Request := (Request v2)\<lparr>Header := h'\<rparr>\<rparr>)))
           = stringToSign (snd (Sign lib v2))
         \<and> signature (snd (Sign lib (v2\<lparr>Request := (Request v2)\<lparr>Header := h'\<rparr>\<rparr>)))
           = signature (snd (Sign lib v2))"
proof -
  let ?v = "v2\<lparr>Request := (Request v2)\<lparr>Header := h'\<rparr>\<rparr>"
  let ?h = "Header (Request v2)"
  have m: "map_of h' = map_of ?h"
    using assms(4,3,5) by (rule wellFormedHeader_map_of)
  have get: "Header_Get h' key = Header_Get ?h key" for key
    by (simp add: Header_Get_def lookupValues_def m)
  have lines: "vendorLines (signingHeader h' (Format lib (Time v2)) cred)
               = vendorLines (signingHeader ?h (Format lib (Time v2)) cred)"
    using wellFormedHeader_signingHeader [OF assms(4)] wellFormedHeader_signingHeader [OF assms(3)]
      signingHeader_order [OF assms(4,3,5)]
    by (rule vendorLines_order)
  have c: "Credentials ?v = Inr cred" using assms(1) by simp
  have u: "signURI (ReqURL (Request ?v)) = Inr uri" using assms(2) by simp
  have w: "wellFormedHeader (Header (Request ?v))" using assms(4) by simp
  have s: "stringToSign (snd (Sign lib ?v)) = stringToSign (snd (Sign lib v2))"
    using Sign_closed_form [OF c u w, of lib]
      Sign_closed_form [OF assms(1,2,3), of lib]
    by (simp add: get lines)
  moreover have "signature (snd (Sign lib ?v)) = signature (snd (Sign lib v2))"
    using Sign_closed_form [OF c u w, of lib]
      Sign_closed_form [OF assms(1,2,3), of lib] s
    by simp
  ultimately show ?thesis by simp
qed

end
